theory Spec2Isabelle
  imports Main "HOL-Library.Word" "HOL-Library.Sublist"
begin

section \<open>Strings and numbers of the host language\<close>

text \<open>
  A string of the program is a sequence of 16-bit code units. The regular expressions of
  \<^verbatim>\<open>main.ts\<close> carry no \<^verbatim>\<open>u\<close> flag, so they work on code units too. ASCII literals are
  written with \<open>lit\<close>; the one non-ASCII character of the prompt template, the em dash
  U+2014, is written as its code unit.
\<close>

type_synonym jsstring = "16 word list"

definition lit :: "string \<Rightarrow> jsstring" where
  "lit s = map of_char s"

definition is_digit :: "16 word \<Rightarrow> bool" where
  \<comment> \<open>the class \<^verbatim>\<open>\d\<close>, that is \<^verbatim>\<open>[0-9]\<close>\<close>
  "is_digit c = (0x30 \<le> c \<and> c \<le> 0x39)"

definition is_alnum :: "16 word \<Rightarrow> bool" where
  \<comment> \<open>the class \<^verbatim>\<open>[a-zA-Z0-9]\<close>\<close>
  "is_alnum c = ((0x61 \<le> c \<and> c \<le> 0x7A) \<or> (0x41 \<le> c \<and> c \<le> 0x5A) \<or> (0x30 \<le> c \<and> c \<le> 0x39))"

definition is_line_terminator :: "16 word \<Rightarrow> bool" where
  \<comment> \<open>LF, CR, U+2028, U+2029: what \<^verbatim>\<open>.\<close> does not match\<close>
  "is_line_terminator c = (c = 0x0A \<or> c = 0x0D \<or> c = 0x2028 \<or> c = 0x2029)"

definition is_space :: "16 word \<Rightarrow> bool" where
  \<comment> \<open>the class \<^verbatim>\<open>\s\<close>, also what \<^verbatim>\<open>trim\<close> and \<^verbatim>\<open>parseInt\<close> strip: white space and
      line terminators\<close>
  "is_space c =
     (c = 0x09 \<or> c = 0x0B \<or> c = 0x0C \<or> c = 0x20 \<or> c = 0xA0 \<or> c = 0x1680
      \<or> (0x2000 \<le> c \<and> c \<le> 0x200A) \<or> c = 0x202F \<or> c = 0x205F \<or> c = 0x3000
      \<or> c = 0xFEFF \<or> is_line_terminator c)"

definition trim :: "jsstring \<Rightarrow> jsstring" where
  "trim s = rev (dropWhile is_space (rev (dropWhile is_space s)))"

definition ascii_lower :: "16 word \<Rightarrow> 16 word" where
  "ascii_lower c = (if 0x41 \<le> c \<and> c \<le> 0x5A then c + 0x20 else c)"

definition ascii_upper :: "16 word \<Rightarrow> 16 word" where
  "ascii_upper c = (if 0x61 \<le> c \<and> c \<le> 0x7A then c - 0x20 else c)"

definition toLowerCase :: "jsstring \<Rightarrow> jsstring" where
  \<comment> \<open>Only \<^verbatim>\<open>A\<close> to \<^verbatim>\<open>Z\<close> are mapped. The program compares the result with
      \<^verbatim>\<open>quit\<close>, \<^verbatim>\<open>exit\<close>, \<^verbatim>\<open>help\<close> and \<^verbatim>\<open>clear\<close> only, and no character outside
      ASCII lower-cases to a letter of these words.\<close>
  "toLowerCase s = map ascii_lower s"

text \<open>
  A number of the program is \<open>NaN\<close> or an integer. Every number the modelled code handles
  is the result of \<^verbatim>\<open>parseInt\<close>, an array index or a constant. Integers beyond \<open>2 ^ 53\<close>,
  which the host rounds to a double, only ever meet the comparisons \<^verbatim>\<open>< 1\<close>, \<^verbatim>\<open>> 1\<close>, \<^verbatim>\<open>> 10\<close>
  and the array length limit, which rounding does not change.
\<close>

datatype number = NaN | Num int

definition less_than :: "number \<Rightarrow> int \<Rightarrow> bool" where
  "less_than x k = (case x of NaN \<Rightarrow> False | Num n \<Rightarrow> n < k)"

definition greater_than :: "number \<Rightarrow> int \<Rightarrow> bool" where
  "greater_than x k = (case x of NaN \<Rightarrow> False | Num n \<Rightarrow> k < n)"

definition digit_value :: "16 word \<Rightarrow> nat option" where
  "digit_value c =
     (if 0x30 \<le> c \<and> c \<le> 0x39 then Some (unat c - 0x30)
      else if 0x61 \<le> c \<and> c \<le> 0x7A then Some (unat c - 0x61 + 10)
      else if 0x41 \<le> c \<and> c \<le> 0x5A then Some (unat c - 0x41 + 10)
      else None)"

definition is_radix_digit :: "nat \<Rightarrow> 16 word \<Rightarrow> bool" where
  "is_radix_digit R c = (case digit_value c of None \<Rightarrow> False | Some d \<Rightarrow> d < R)"

definition digits_value :: "nat \<Rightarrow> jsstring \<Rightarrow> nat" where
  "digits_value R Z = foldl (\<lambda>acc c. acc * R + (case digit_value c of None \<Rightarrow> 0 | Some d \<Rightarrow> d)) 0 Z"

definition parseInt :: "jsstring \<Rightarrow> number" where
  \<comment> \<open>\<^verbatim>\<open>parseInt(string)\<close> with no radix: leading white space, a sign, a \<^verbatim>\<open>0x\<close> prefix,
      then the longest run of digits; \<open>NaN\<close> when that run is empty\<close>
  "parseInt string =
     (let S = dropWhile is_space string;
          sign = (case S of c # _ \<Rightarrow> if c = 0x2D then - 1 else 1 | [] \<Rightarrow> (1::int));
          S1 = (case S of c # cs \<Rightarrow> if c = 0x2B \<or> c = 0x2D then cs else S | [] \<Rightarrow> S);
          hex = (case S1 of a # b # _ \<Rightarrow> a = 0x30 \<and> (b = 0x78 \<or> b = 0x58) | _ \<Rightarrow> False);
          R = (if hex then 16 else 10);
          S2 = (if hex then drop 2 S1 else S1);
          Z = takeWhile (is_radix_digit R) S2
      in if Z = [] then NaN else Num (sign * int (digits_value R Z)))"

function number_toString :: "nat \<Rightarrow> jsstring" where
  \<comment> \<open>a non-negative integer inside a template literal: its decimal digits\<close>
  "number_toString n =
     (if n < 10 then [0x30 + of_nat n]
      else number_toString (n div 10) @ [0x30 + of_nat (n mod 10)])"
  by pat_completeness auto
termination
  by (relation "measure (\<lambda>n. n)") auto

declare number_toString.simps [simp del]

section \<open>ClaySculptorAgent: prompt and file name\<close>

definition defaultModel :: jsstring where
  "defaultModel = lit ''imagen-4.0-generate-001''"

definition defaultOutputDir :: jsstring where
  "defaultOutputDir = lit ''./output''"

definition generatePrompt :: "jsstring \<Rightarrow> bool option \<Rightarrow> jsstring" where
  \<comment> \<open>\<^verbatim>\<open>shadows\<close> is an optional parameter; \<^verbatim>\<open>!shadows\<close> holds for \<^verbatim>\<open>false\<close> and for a
      missing argument\<close>
  "generatePrompt userInput shadows =
     lit ''Stylized 3D cartoon prop of '' @ userInput
     @ lit '', playful clay-like texture, smooth surface finish, modern and creative design ''
     @ [0x2014] @ lit '' white background''
     @ (if shadows \<noteq> Some True then lit '', no shadows'' else [])
     @ lit '' '' @ [0x2014] @ lit '' soft studio lighting ''
     @ [0x2014] @ lit '' 1:1 aspect ratio '' @ [0x2014] @ lit '' 1024x1024''"

definition sanitize :: "jsstring \<Rightarrow> jsstring" where
  \<comment> \<open>\<^verbatim>\<open>userInput.replace(/[^a-zA-Z0-9]/g, "_")\<close>\<close>
  "sanitize userInput = map (\<lambda>c. if is_alnum c then c else 0x5F) userInput"

definition timestamp :: "jsstring \<Rightarrow> jsstring" where
  \<comment> \<open>\<^verbatim>\<open>new Date().toISOString().replace(/[:.]/g, "-")\<close>, from the clock reading\<close>
  "timestamp now = map (\<lambda>c. if c = 0x3A \<or> c = 0x2E then 0x2D else c) now"

definition generateFilename :: "jsstring \<Rightarrow> jsstring \<Rightarrow> bool \<Rightarrow> nat option \<Rightarrow> jsstring" where
  \<comment> \<open>The first argument is the clock reading \<^verbatim>\<open>new Date().toISOString()\<close> that the
      function takes when it runs. \<^verbatim>\<open>isVariation\<close> defaults to \<^verbatim>\<open>false\<close> and
      \<^verbatim>\<open>variationIndex\<close> may be missing.\<close>
  "generateFilename now userInput isVariation variationIndex =
     (let sanitizedInput = sanitize userInput in
      case variationIndex of
        Some index \<Rightarrow>
          if isVariation
          then lit ''clay_'' @ sanitizedInput @ lit ''_variation_'' @ number_toString (index + 1)
               @ lit ''_'' @ timestamp now @ lit ''.png''
          else lit ''clay_'' @ sanitizedInput @ lit ''_'' @ timestamp now @ lit ''.png''
      | None \<Rightarrow> lit ''clay_'' @ sanitizedInput @ lit ''_'' @ timestamp now @ lit ''.png'')"

text \<open>
  The clock is outside the program. \<^verbatim>\<open>Date.prototype.toISOString\<close> renders a time of the
  years 0000 to 9999 as \<^verbatim>\<open>YYYY-MM-DDTHH:mm:ss.sssZ\<close>; \<open>iso_format\<close> recognises that shape
  (\<^verbatim>\<open>d\<close> in the template stands for a digit).
\<close>

fun matches_template :: "string \<Rightarrow> jsstring \<Rightarrow> bool" where
  "matches_template [] [] = True"
| "matches_template (t # ts) (c # cs) =
     ((if t = CHR ''d'' then is_digit c else c = of_char t) \<and> matches_template ts cs)"
| "matches_template _ _ = False"

definition iso_format :: "jsstring \<Rightarrow> bool" where
  "iso_format now = matches_template ''dddd-dd-ddTdd:dd:dd.dddZ'' now"


section \<open>The world outside the program\<close>

text \<open>
  The image service, the file system, the clock and \<^verbatim>\<open>atob\<close> are inputs of the model.
  A response follows the SDK's types: the list of images, an image's \<^verbatim>\<open>image\<close> and its
  \<^verbatim>\<open>imageBytes\<close> may each be missing; the payload is a base64 string or raw bytes.
\<close>

datatype payload = Base64 jsstring | Bytes "8 word list"

record Image =
  imageBytes :: "payload option"

record GeneratedImage =
  image :: "Image option"

record GenerateImagesResponse =
  generatedImages :: "GeneratedImage list option"

datatype api_outcome =
    Rejected  \<comment> \<open>\<^verbatim>\<open>retry\<close> gave up and threw\<close>
  | Returned "GenerateImagesResponse option"  \<comment> \<open>the response, \<open>None\<close> for \<^verbatim>\<open>undefined\<close>\<close>

datatype mkdir_outcome = MkdirOk | MkdirAlreadyExists | MkdirFailed

record call_env =
  mkdir_result :: mkdir_outcome
  api_result :: api_outcome
  clock :: jsstring  \<comment> \<open>\<^verbatim>\<open>new Date().toISOString()\<close> when the call names its file\<close>
  atob :: "jsstring \<Rightarrow> jsstring option"  \<comment> \<open>\<open>None\<close>: the string is not base64\<close>
  write_ok :: bool  \<comment> \<open>whether \<^verbatim>\<open>Deno.writeFile\<close> succeeds\<close>

record world =
  calls :: "nat \<Rightarrow> call_env"  \<comment> \<open>the world of the command's call number \<open>index\<close>\<close>
  stamps :: "nat \<Rightarrow> jsstring"  \<comment> \<open>the clock when variation \<open>index\<close> gets its file name\<close>
  settled_at :: "nat \<Rightarrow> nat"  \<comment> \<open>when the promise of call \<open>index\<close> settles\<close>

datatype error =
    MkdirFailure | ApiFailure | NoImagesGenerated | GeneratedImageHasNoBytes
  | InvalidCharacterError | WriteFailure | RangeError

text \<open>
  What the program prints is kept as the message template and its arguments, not as the
  formatted text.
\<close>

datatype message =
    GeneratingImage jsstring
  | SavedTo jsstring
  | ErrorGeneratingImage error
  | GeneratingVariations number jsstring
  | GeneratedVariations nat
  | ErrorGeneratingVariations error
  | Welcome jsstring number
  | Goodbye
  | InteractiveHelp
  | SpecifyRange  \<comment> \<open>\<^verbatim>\<open>Please specify 1-10 variations\<close>\<close>
  | Blank
  | SessionError error
  | Completed
  | Fatal error
  | ApiKeyRequired  \<comment> \<open>\<^verbatim>\<open>Error: GEMINI_API_KEY environment variable is required\<close>\<close>
  | ApiKeyHint  \<comment> \<open>\<^verbatim>\<open>Set it with: export GEMINI_API_KEY='your-api-key-here'\<close>\<close>
  | CliHelp
  | Version

datatype effect =
    SpinnerStart message
  | SpinnerStop
  | ConsoleLog message
  | ConsoleError message
  | ConsoleClear
  | Mkdir jsstring
  | GenerateImages jsstring jsstring  \<comment> \<open>model and prompt of the (retried) request\<close>
  | WriteFile jsstring "8 word list"

text \<open>
  A trace lists effects in program order. The calls of one batch of variations overlap in
  time: \<open>Concurrently\<close> holds the trace of each, by index, and fixes no order between
  them. Each is the trace of the call run to its end; a call still pending when the join
  fails goes on after it, unless the process exits first.
\<close>

datatype step = Do effect | Concurrently "effect list list"

definition step_effects :: "step \<Rightarrow> effect list" where
  "step_effects s = (case s of Do e \<Rightarrow> [e] | Concurrently traces \<Rightarrow> concat traces)"

definition trace_effects :: "step list \<Rightarrow> effect list" where
  "trace_effects trace = concat (map step_effects trace)"

definition is_generation_effect :: "effect \<Rightarrow> bool" where
  "is_generation_effect e =
     (case e of Mkdir _ \<Rightarrow> True | GenerateImages _ _ \<Rightarrow> True | WriteFile _ _ \<Rightarrow> True
      | SpinnerStart (GeneratingImage _) \<Rightarrow> True | SpinnerStart (GeneratingVariations _ _) \<Rightarrow> True
      | _ \<Rightarrow> False)"

section \<open>ClaySculptorAgent: generation\<close>

record ClaySculptorOptions =
  model :: "jsstring option"
  outputDir :: "jsstring option"
  variations :: "number option"
  shadows :: "bool option"

record ClayGenerationConfig = ClaySculptorOptions +
  userInput :: jsstring
  outputPath :: "jsstring option"

record ClaySculptorAgent =
  agent_shadows :: bool  \<comment> \<open>the field \<^verbatim>\<open>this.shadows\<close>\<close>

definition new_ClaySculptorAgent :: "bool option \<Rightarrow> ClaySculptorAgent" where
  \<comment> \<open>\<^verbatim>\<open>constructor(apiKey, shadows = false)\<close>\<close>
  "new_ClaySculptorAgent s = \<lparr>agent_shadows = (case s of None \<Rightarrow> False | Some b \<Rightarrow> b)\<rparr>"

definition or_else :: "jsstring option \<Rightarrow> jsstring \<Rightarrow> jsstring" where
  \<comment> \<open>\<^verbatim>\<open>x || d\<close> on an optional string: a missing and an empty string are falsy\<close>
  "or_else x d = (case x of None \<Rightarrow> d | Some s \<Rightarrow> if s = [] then d else s)"

definition thrown :: "effect list \<Rightarrow> error \<Rightarrow> effect list \<times> (error + jsstring)" where
  \<comment> \<open>the \<^verbatim>\<open>catch\<close> block of \<^verbatim>\<open>generateClayImage\<close>: stop the spinner, log, rethrow\<close>
  "thrown done e = (done @ [SpinnerStop, ConsoleError (ErrorGeneratingImage e)], Inl e)"

definition first_image_bytes :: "GenerateImagesResponse option \<Rightarrow> error + payload" where
  \<comment> \<open>the two checks on the response; an empty base64 string is falsy as well\<close>
  "first_image_bytes response =
     (case (case response of None \<Rightarrow> None | Some r \<Rightarrow> generatedImages r) of
        None \<Rightarrow> Inl NoImagesGenerated
      | Some [] \<Rightarrow> Inl NoImagesGenerated
      | Some (first # _) \<Rightarrow>
          (case (case image first of None \<Rightarrow> None | Some i \<Rightarrow> imageBytes i) of
             None \<Rightarrow> Inl GeneratedImageHasNoBytes
           | Some (Base64 s) \<Rightarrow> if s = [] then Inl GeneratedImageHasNoBytes else Inr (Base64 s)
           | Some (Bytes b) \<Rightarrow> Inr (Bytes b)))"

definition to_bytes :: "(jsstring \<Rightarrow> jsstring option) \<Rightarrow> payload \<Rightarrow> error + 8 word list" where
  \<comment> \<open>a string goes through \<^verbatim>\<open>atob\<close> and the loop \<^verbatim>\<open>bytes[i] = binaryString.charCodeAt(i)\<close>\<close>
  "to_bytes decode content =
     (case content of
        Base64 s \<Rightarrow>
          (case decode s of
             None \<Rightarrow> Inl InvalidCharacterError
           | Some binaryString \<Rightarrow> Inr (map ucast binaryString))
      | Bytes b \<Rightarrow> Inr b)"

definition generateClayImage ::
  "ClaySculptorAgent \<Rightarrow> call_env \<Rightarrow> ClayGenerationConfig \<Rightarrow> effect list \<times> (error + jsstring)" where
  "generateClayImage self env config =
     (let input = userInput config;
          model' = (case model config of None \<Rightarrow> defaultModel | Some m \<Rightarrow> m);
          shadows' = (case shadows config of None \<Rightarrow> agent_shadows self | Some s \<Rightarrow> s);
          outputDir' = (case outputDir config of None \<Rightarrow> defaultOutputDir | Some d \<Rightarrow> d);
          begun = [SpinnerStart (GeneratingImage input), Mkdir outputDir'];
          requested = begun @ [GenerateImages model' (generatePrompt input (Some shadows'))]
      in if mkdir_result env = MkdirFailed then thrown begun MkdirFailure
         else
           (case api_result env of
              Rejected \<Rightarrow> thrown requested ApiFailure
            | Returned response \<Rightarrow>
                (case first_image_bytes response of
                   Inl e \<Rightarrow> thrown requested e
                 | Inr content \<Rightarrow>
                     (let filename = generateFilename (clock env) input False None;
                          finalOutputPath =
                            or_else (outputPath config) (outputDir' @ lit ''/'' @ filename)
                      in (case to_bytes (atob env) content of
                            Inl e \<Rightarrow> thrown requested e
                          | Inr bytes \<Rightarrow>
                              if write_ok env
                              then (requested @ [WriteFile finalOutputPath bytes, SpinnerStop,
                                                 ConsoleLog (SavedTo finalOutputPath)],
                                    Inr finalOutputPath)
                              else thrown (requested @ [WriteFile finalOutputPath bytes])
                                     WriteFailure)))))"

definition array_length :: "number \<Rightarrow> error + nat" where
  \<comment> \<open>\<^verbatim>\<open>Array.from({ length: count }, ...)\<close>: \<open>NaN\<close> and negative lengths count as 0, a
      length beyond \<open>2 ^ 32 - 1\<close> is a \<^verbatim>\<open>RangeError\<close>\<close>
  "array_length count =
     (case count of
        NaN \<Rightarrow> Inr 0
      | Num n \<Rightarrow> if 4294967295 < n then Inl RangeError else Inr (nat n))"

definition promise_all :: "(nat \<Rightarrow> nat) \<Rightarrow> (error + 'a) list \<Rightarrow> error + 'a list" where
  \<comment> \<open>\<^verbatim>\<open>Promise.all\<close>: the results by index when every promise is fulfilled, else the
      error of the rejection that settles first\<close>
  "promise_all settled results =
     (case filter (\<lambda>i. isl (results ! i)) [0..<length results] of
        [] \<Rightarrow> Inr (map projr results)
      | i # rejected \<Rightarrow> Inl (projl (results ! arg_min_list settled (i # rejected))))"

definition variation_config :: "ClaySculptorAgent \<Rightarrow> world \<Rightarrow> jsstring \<Rightarrow> nat \<Rightarrow> ClayGenerationConfig" where
  \<comment> \<open>the object literal passed to \<^verbatim>\<open>generateClayImage\<close> for one index\<close>
  "variation_config self w input index =
     \<lparr>model = Some defaultModel,
      outputDir = Some defaultOutputDir,
      variations = None,
      shadows = Some (agent_shadows self),
      userInput = input,
      outputPath = Some (defaultOutputDir @ lit ''/''
                         @ generateFilename (stamps w index) input True (Some index))\<rparr>"

definition generateMultipleVariations ::
  "ClaySculptorAgent \<Rightarrow> world \<Rightarrow> jsstring \<Rightarrow> number option \<Rightarrow> step list \<times> (error + jsstring list)" where
  \<comment> \<open>\<^verbatim>\<open>count\<close> defaults to 3. \<^verbatim>\<open>Array.from\<close> stands before the \<^verbatim>\<open>try\<close>: its error is not
      logged here.\<close>
  "generateMultipleVariations self w input count_arg =
     (let count = (case count_arg of None \<Rightarrow> Num 3 | Some c \<Rightarrow> c);
          begun = [Do (SpinnerStart (GeneratingVariations count input))]
      in (case array_length count of
            Inl e \<Rightarrow> (begun, Inl e)
          | Inr n \<Rightarrow>
              (let promises = map (\<lambda>index. generateClayImage self (calls w index)
                                              (variation_config self w input index)) [0..<n];
                   joined = begun @ [Concurrently (map fst promises), Do SpinnerStop]
               in (case promise_all (settled_at w) (map snd promises) of
                     Inr results \<Rightarrow>
                       (joined @ [Do (ConsoleLog (GeneratedVariations (length results)))],
                        Inr results)
                   | Inl e \<Rightarrow>
                       (joined @ [Do (ConsoleError (ErrorGeneratingVariations e))], Inl e)))))"

section \<open>InteractiveClaySculptor\<close>

record InteractiveClaySculptor =
  agent :: ClaySculptorAgent
  options :: ClaySculptorOptions

definition new_InteractiveClaySculptor :: "ClaySculptorOptions \<Rightarrow> InteractiveClaySculptor" where
  \<comment> \<open>the constructor; \<^verbatim>\<open>options.variations || 3\<close> replaces a missing count, 0 and NaN\<close>
  "new_InteractiveClaySculptor opts =
     \<lparr>agent = new_ClaySculptorAgent (shadows opts),
      options =
        \<lparr>model = Some (or_else (model opts) (lit ''imagen-4.0-generate-001'')),
         outputDir = Some (or_else (outputDir opts) (lit ''./output'')),
         variations =
           Some (case variations opts of
                   Some (Num n) \<Rightarrow> if n = 0 then Num 3 else Num n
                 | _ \<Rightarrow> Num 3),
         shadows = Some (shadows opts = Some True)\<rparr>\<rparr>"

definition dot_plus_to_end :: "jsstring \<Rightarrow> bool" where
  \<comment> \<open>\<^verbatim>\<open>(.+)$\<close> matches the whole of the rest: not empty, no line terminator\<close>
  "dot_plus_to_end s = (s \<noteq> [] \<and> list_all (\<lambda>c. \<not> is_line_terminator c) s)"

definition match_variations :: "jsstring \<Rightarrow> (jsstring \<times> jsstring) option" where
  \<comment> \<open>\<^verbatim>\<open>input.match(/^variations\s+(\d+)\s+(.+)$/i)\<close>: the two groups of the match. The
      first \<^verbatim>\<open>\s+\<close> and \<^verbatim>\<open>\d+\<close> can only take their whole run; the second \<^verbatim>\<open>\s+\<close> is
      greedy and gives characters back until \<^verbatim>\<open>(.+)$\<close> matches.\<close>
  "match_variations input =
     (if map ascii_upper (take 10 input) \<noteq> lit ''VARIATIONS'' then None
      else
        (let after_word = drop 10 input;
             after_space = dropWhile is_space after_word;
             digits = takeWhile is_digit after_space;
             after_digits = dropWhile is_digit after_space;
             k = length (takeWhile is_space after_digits)
         in if takeWhile is_space after_word = [] \<or> digits = [] then None
            else
              (case find (\<lambda>j. dot_plus_to_end (drop j after_digits)) (rev [1..<Suc k]) of
                 None \<Rightarrow> None
               | Some j \<Rightarrow> Some (digits, drop j after_digits))))"

definition handleVariationsCommand ::
  "InteractiveClaySculptor \<Rightarrow> world \<Rightarrow> jsstring \<Rightarrow> step list \<times> (error + bool)" where
  "handleVariationsCommand self w input =
     (case match_variations input of
        None \<Rightarrow> ([], Inr False)
      | Some (digits, rest) \<Rightarrow>
          (let count = parseInt digits;
               description = trim rest
           in if less_than count 1 \<or> greater_than count 10
              then ([Do (ConsoleLog SpecifyRange)], Inr True)
              else
                (case generateMultipleVariations (agent self) w description (Some count) of
                   (trace, Inl e) \<Rightarrow>
                     (Do (ConsoleLog (GeneratingVariations count description)) # trace, Inl e)
                 | (trace, Inr _) \<Rightarrow>
                     (Do (ConsoleLog (GeneratingVariations count description)) # trace, Inr True))))"

definition generateSingleImage ::
  "InteractiveClaySculptor \<Rightarrow> world \<Rightarrow> jsstring \<Rightarrow> effect list \<times> (error + jsstring)" where
  "generateSingleImage self w description =
     generateClayImage (agent self) (calls w 0)
       \<lparr>model = model (options self),
        outputDir = outputDir (options self),
        variations = None,
        shadows = shadows (options self),
        userInput = description,
        outputPath = None\<rparr>"

definition handleCommand ::
  "InteractiveClaySculptor \<Rightarrow> world \<Rightarrow> jsstring \<Rightarrow> step list \<times> (error + bool)" where
  \<comment> \<open>the result \<open>Inr True\<close> ends the session\<close>
  "handleCommand self w input =
     (let lowerInput = toLowerCase input
      in if lowerInput = lit ''quit'' \<or> lowerInput = lit ''exit''
         then ([Do (ConsoleLog Goodbye)], Inr True)
         else if lowerInput = lit ''help'' then ([Do (ConsoleLog InteractiveHelp)], Inr False)
         else if lowerInput = lit ''clear'' then ([Do ConsoleClear], Inr False)
         else
           (case handleVariationsCommand self w input of
              (trace, Inl e) \<Rightarrow> (trace, Inl e)
            | (trace, Inr True) \<Rightarrow> (trace, Inr False)
            | (trace, Inr False) \<Rightarrow>
                (case generateSingleImage self w input of
                   (effects, Inl e) \<Rightarrow> (trace @ map Do effects, Inl e)
                 | (effects, Inr _) \<Rightarrow>
                     (trace @ map Do effects @ [Do (ConsoleLog Blank)], Inr False))))"

datatype session_state = AwaitingInput | Terminated

text \<open>
  The loop of \<^verbatim>\<open>startInteractiveSession\<close> runs over the lines that \<^verbatim>\<open>prompt\<close> returns
  (\<open>None\<close> for \<^verbatim>\<open>null\<close>), each with the world its command meets. When the lines are used
  up the session is waiting at the prompt.
\<close>

fun session_loop ::
  "InteractiveClaySculptor \<Rightarrow> (jsstring option \<times> world) list \<Rightarrow> step list \<times> session_state" where
  "session_loop self [] = ([], AwaitingInput)"
| "session_loop self ((line, w) # rest) =
     (case line of
        None \<Rightarrow> session_loop self rest
      | Some input \<Rightarrow>
          if trim input = [] then session_loop self rest
          else
            (case handleCommand self w (trim input) of
               (trace, Inr True) \<Rightarrow> (trace, Terminated)
             | (trace, Inr False) \<Rightarrow>
                 (case session_loop self rest of (later, st) \<Rightarrow> (trace @ later, st))
             | (trace, Inl e) \<Rightarrow>
                 (case session_loop self rest of
                    (later, st) \<Rightarrow>
                      (trace @ [Do (ConsoleError (SessionError e)), Do (ConsoleLog Blank)] @ later,
                       st))))"

definition startInteractiveSession ::
  "InteractiveClaySculptor \<Rightarrow> (jsstring option \<times> world) list \<Rightarrow> step list \<times> session_state" where
  "startInteractiveSession self lines =
     (case session_loop self lines of
        (trace, st) \<Rightarrow>
          (Do SpinnerStop
           # Do (ConsoleLog (Welcome (or_else (outputDir (options self)) (lit ''./output''))
                                     (case variations (options self) of
                                        Some (Num n) \<Rightarrow> if n = 0 then Num 3 else Num n
                                      | _ \<Rightarrow> Num 3)))
           # trace, st))"

section \<open>The command line\<close>

text \<open>
  \<open>CliArgs\<close> is what \<^verbatim>\<open>parseArgs\<close> returns. \<^verbatim>\<open>variations\<close> is declared a string option
  there, so the program receives its text.
\<close>

record CliArgs =
  arg_interactive :: "bool option"
  arg_variations :: "jsstring option"
  arg_output :: "jsstring option"
  arg_output_dir :: "jsstring option"
  arg_model :: "jsstring option"
  arg_help :: "bool option"
  arg_version :: "bool option"
  arg_shadows :: "bool option"
  arg_positional :: "jsstring list"  \<comment> \<open>the field \<^verbatim>\<open>_\<close>\<close>

datatype ending =
    Exited nat  \<comment> \<open>\<^verbatim>\<open>Deno.exit\<close> with this code\<close>
  | Finished  \<comment> \<open>the function returned; the process ends with code 0\<close>
  | Prompting  \<comment> \<open>the session waits for its next line\<close>

definition getApiKey :: "jsstring option \<Rightarrow> step list \<times> jsstring option" where
  \<comment> \<open>The argument is \<^verbatim>\<open>Deno.env.get("GEMINI_API_KEY")\<close>. The result \<open>None\<close> stands for
      \<^verbatim>\<open>Deno.exit(1)\<close>; a missing and an empty key are falsy.\<close>
  "getApiKey key =
     (case key of
        None \<Rightarrow> ([Do (ConsoleError ApiKeyRequired), Do (ConsoleLog ApiKeyHint)], None)
      | Some apiKey \<Rightarrow>
          if apiKey = []
          then ([Do (ConsoleError ApiKeyRequired), Do (ConsoleLog ApiKeyHint)], None)
          else ([], Some apiKey))"

definition single_config :: "CliArgs \<Rightarrow> jsstring \<Rightarrow> ClayGenerationConfig" where
  \<comment> \<open>the object literal of the single-image branch of \<^verbatim>\<open>runSingleCommandMode\<close>\<close>
  "single_config args input =
     \<lparr>model = Some (or_else (arg_model args) (lit ''imagen-4.0-generate-001'')),
      outputDir = Some (or_else (arg_output_dir args) (lit ''./output'')),
      variations = None,
      shadows = Some (arg_shadows args = Some True),
      userInput = input,
      outputPath = Some (or_else (arg_output args)
                           (lit ''./output/'' @ sanitize input @ lit ''.png''))\<rparr>"

definition runSingleCommandMode ::
  "jsstring option \<Rightarrow> world \<Rightarrow> CliArgs \<Rightarrow> jsstring \<Rightarrow> step list \<times> ending" where
  \<comment> \<open>\<open>input\<close> is \<^verbatim>\<open>args._[0]\<close>: \<^verbatim>\<open>main\<close> calls the function only when \<^verbatim>\<open>args._\<close> is not
      empty\<close>
  "runSingleCommandMode key w args input =
     (let variations' =
            (case arg_variations args of
               None \<Rightarrow> Num 1
             | Some s \<Rightarrow> if s = [] then Num 1 else parseInt s)
      in (case getApiKey key of
            (printed, None) \<Rightarrow> (printed, Exited 1)
          | (printed, Some apiKey) \<Rightarrow>
              (let self = new_ClaySculptorAgent (Some (arg_shadows args = Some True))
               in if greater_than variations' 1
                  then
                    (case generateMultipleVariations self w input (Some variations') of
                       (trace, Inl e) \<Rightarrow> (trace @ [Do (ConsoleError (Fatal e))], Exited 1)
                     | (trace, Inr _) \<Rightarrow> (trace @ [Do (ConsoleLog Completed)], Finished))
                  else
                    (case generateClayImage self (calls w 0) (single_config args input) of
                       (effects, Inl e) \<Rightarrow>
                         (map Do effects @ [Do (ConsoleError (Fatal e))], Exited 1)
                     | (effects, Inr _) \<Rightarrow>
                         (map Do effects @ [Do (ConsoleLog Completed)], Finished)))))"

definition runInteractiveMode ::
  "jsstring option \<Rightarrow> (jsstring option \<times> world) list \<Rightarrow> CliArgs \<Rightarrow> step list \<times> ending" where
  "runInteractiveMode key lines args =
     (let opts =
            \<lparr>model = Some (or_else (arg_model args) (lit ''imagen-4.0-generate-001'')),
             outputDir = Some (or_else (arg_output_dir args) (lit ''./output'')),
             variations = Some (Num 3),
             shadows = Some (arg_shadows args = Some True)\<rparr>
      in (case getApiKey key of
            (printed, None) \<Rightarrow> (printed, Exited 1)
          | (printed, Some apiKey) \<Rightarrow>
              (case startInteractiveSession (new_InteractiveClaySculptor opts) lines of
                 (trace, Terminated) \<Rightarrow> (trace, Finished)
               | (trace, AwaitingInput) \<Rightarrow> (trace, Prompting))))"

definition main ::
  "jsstring option \<Rightarrow> world \<Rightarrow> (jsstring option \<times> world) list \<Rightarrow> CliArgs \<Rightarrow> step list \<times> ending" where
  "main key w lines args =
     (if arg_help args = Some True then ([Do (ConsoleLog CliHelp)], Finished)
      else if arg_version args = Some True then ([Do (ConsoleLog Version)], Finished)
      else if arg_interactive args = Some True then runInteractiveMode key lines args
      else
        (case arg_positional args of
           [] \<Rightarrow> ([Do (ConsoleLog CliHelp)], Finished)
         | input # _ \<Rightarrow> runSingleCommandMode key w args input))"

section \<open>Vocabulary of the properties and stub worlds\<close>




definition prompt_tail :: "bool \<Rightarrow> jsstring" where
  \<comment> \<open>the text that follows the description in the prompt, by the value of \<^verbatim>\<open>shadows\<close>\<close>
  "prompt_tail s =
     lit '', playful clay-like texture, smooth surface finish, modern and creative design ''
     @ [0x2014] @ lit '' white background''
     @ (if s then [] else lit '', no shadows'')
     @ lit '' '' @ [0x2014] @ lit '' soft studio lighting ''
     @ [0x2014] @ lit '' 1:1 aspect ratio '' @ [0x2014] @ lit '' 1024x1024''"

definition key_absent :: "jsstring option \<Rightarrow> bool" where
  "key_absent key = (key = None \<or> key = Some [])"

text \<open>
  A stub service that answers every request with one image, the base64 string
  \<^verbatim>\<open>iVBORw==\<close> of the four bytes 89 50 4E 47, on a file system where every operation
  succeeds, with the clock standing at \<open>now\<close> and an \<^verbatim>\<open>atob\<close> that knows this one string;
  and the same with a service that returns no image.
\<close>

definition stub_env :: "jsstring \<Rightarrow> call_env" where
  "stub_env now =
     \<lparr>mkdir_result = MkdirOk,
      api_result = Returned (Some \<lparr>generatedImages =
        Some [\<lparr>image = Some \<lparr>imageBytes = Some (Base64 (lit ''iVBORw==''))\<rparr>\<rparr>]\<rparr>),
      clock = now,
      atob = (\<lambda>s. if s = lit ''iVBORw=='' then Some [0x89, 0x50, 0x4E, 0x47] else None),
      write_ok = True\<rparr>"

definition empty_env :: "jsstring \<Rightarrow> call_env" where
  "empty_env now = (stub_env now)\<lparr>api_result := Returned (Some \<lparr>generatedImages = Some []\<rparr>)\<rparr>"

definition stub_world :: "jsstring \<Rightarrow> world" where
  "stub_world now = \<lparr>calls = (\<lambda>index. stub_env now), stamps = (\<lambda>index. now), settled_at = (\<lambda>index. index)\<rparr>"

definition flaky_world :: "jsstring \<Rightarrow> world" where
  \<comment> \<open>the call of index 1 gets no image\<close>
  "flaky_world now =
     \<lparr>calls = (\<lambda>index. if index = 1 then empty_env now else stub_env now),
      stamps = (\<lambda>index. now), settled_at = (\<lambda>index. index)\<rparr>"

definition no_flags :: "jsstring list \<Rightarrow> CliArgs" where
  \<comment> \<open>what \<^verbatim>\<open>parseArgs\<close> returns for positional arguments alone\<close>
  "no_flags positional =
     \<lparr>arg_interactive = Some False, arg_variations = None, arg_output = None,
      arg_output_dir = Some (lit ''./output''), arg_model = None, arg_help = Some False,
      arg_version = Some False, arg_shadows = Some False, arg_positional = positional\<rparr>"

definition plain_config :: "jsstring \<Rightarrow> ClayGenerationConfig" where
  \<comment> \<open>the request \<^verbatim>\<open>{ userInput: d, outputDir: "./output" }\<close>\<close>
  "plain_config d =
     \<lparr>model = None, outputDir = Some (lit ''./output''), variations = None, shadows = None,
      userInput = d, outputPath = None\<rparr>"

definition configured_session :: InteractiveClaySculptor where
  \<comment> \<open>a session started with \<^verbatim>\<open>--output-dir ./my_creations --model imagen-3.0-generate-002\<close>\<close>
  "configured_session =
     new_InteractiveClaySculptor
       \<lparr>model = Some (lit ''imagen-3.0-generate-002''), outputDir = Some (lit ''./my_creations''),
        variations = Some (Num 3), shadows = Some False\<rparr>"


section \<open>Decimal numerals\<close>

lemma small_cases:
  "(k::nat) < 10 \<Longrightarrow> k = 0 \<or> k = 1 \<or> k = 2 \<or> k = 3 \<or> k = 4 \<or> k = 5 \<or> k = 6 \<or> k = 7 \<or> k = 8 \<or> k = 9"
  by arith

lemma digit_char_is_digit: "k < 10 \<Longrightarrow> is_digit (0x30 + of_nat k)"
  using small_cases[of k] by (auto simp: is_digit_def)

lemma digit_char_inj:
  assumes "j < 10" "k < 10" "(0x30 + of_nat j :: 16 word) = 0x30 + of_nat k"
  shows "j = k"
proof -
  from assms(3) have "(of_nat j :: 16 word) = of_nat k" by simp
  then have "unat (of_nat j :: 16 word) = unat (of_nat k :: 16 word)" by simp
  moreover have "unat (of_nat j :: 16 word) = j" using assms(1) by (simp add: unat_of_nat)
  moreover have "unat (of_nat k :: 16 word) = k" using assms(2) by (simp add: unat_of_nat)
  ultimately show ?thesis by simp
qed

lemma number_toString_digits: "list_all is_digit (number_toString n)"
proof (induction n rule: number_toString.induct)
  case (1 n)
  show ?case
  proof (cases "n < 10")
    case True
    then show ?thesis by (subst number_toString.simps) (simp add: digit_char_is_digit)
  next
    case False
    have "n mod 10 < 10" by simp
    with False 1 show ?thesis
      by (subst number_toString.simps) (simp add: digit_char_is_digit)
  qed
qed

lemma number_toString_not_Nil: "number_toString n \<noteq> []"
  by (subst number_toString.simps) simp

lemma number_toString_length: "10 \<le> n \<Longrightarrow> 2 \<le> length (number_toString n)"
proof -
  assume "10 \<le> n"
  moreover have "1 \<le> length (number_toString (n div 10))"
    using number_toString_not_Nil[of "n div 10"] by (cases "number_toString (n div 10)") auto
  ultimately show ?thesis by (subst number_toString.simps) simp
qed

lemma number_toString_inj: "number_toString m = number_toString n \<Longrightarrow> m = n"
proof (induction m arbitrary: n rule: number_toString.induct)
  case (1 m)
  show ?case
  proof (cases "m < 10")
    case True
    have "n < 10"
    proof (rule ccontr)
      assume "\<not> n < 10"
      then have "2 \<le> length (number_toString n)" by (simp add: number_toString_length)
      moreover have "length (number_toString m) = 1"
        using True by (subst number_toString.simps) simp
      ultimately show False using 1(2) by simp
    qed
    with True 1(2) show ?thesis
      by (subst (asm) number_toString.simps, subst (asm) (2) number_toString.simps)
         (auto dest: digit_char_inj)
  next
    case False
    have n: "\<not> n < 10"
    proof
      assume "n < 10"
      then have "length (number_toString n) = 1" by (subst number_toString.simps) simp
      moreover have "2 \<le> length (number_toString m)"
        using False by (simp add: number_toString_length)
      ultimately show False using 1(2) by simp
    qed
    have "number_toString (m div 10) @ [0x30 + of_nat (m mod 10)]
          = number_toString (n div 10) @ [0x30 + of_nat (n mod 10)]"
      using 1(2) False n
      by (subst (asm) number_toString.simps, subst (asm) (2) number_toString.simps) simp
    then have a: "number_toString (m div 10) = number_toString (n div 10)"
      and b: "(0x30 + of_nat (m mod 10) :: 16 word) = 0x30 + of_nat (n mod 10)" by auto
    from 1(1)[OF False a] have "m div 10 = n div 10" .
    moreover from b have "m mod 10 = n mod 10" by (intro digit_char_inj) auto
    ultimately show ?thesis by (metis div_mult_mod_eq)
  qed
qed

lemma takeWhile_digits_underscore:
  "takeWhile is_digit (number_toString n @ 0x5F # r) = number_toString n"
proof -
  have "\<forall>c \<in> set (number_toString n). is_digit c"
    using number_toString_digits[of n] by (simp add: list_all_iff)
  moreover have "\<not> is_digit 0x5F" by (simp add: is_digit_def)
  ultimately show ?thesis by (simp add: takeWhile_append2)
qed

lemma number_then_underscore_inj:
  assumes "number_toString a @ 0x5F # r = number_toString b @ 0x5F # r'"
  shows "a = b"
proof -
  have "number_toString a = takeWhile is_digit (number_toString a @ 0x5F # r)"
    by (simp only: takeWhile_digits_underscore)
  also have "\<dots> = takeWhile is_digit (number_toString b @ 0x5F # r')"
    by (simp only: assms)
  also have "\<dots> = number_toString b"
    by (simp only: takeWhile_digits_underscore)
  finally show ?thesis by (rule number_toString_inj)
qed

section \<open>File names\<close>

lemma variation_filename_eq:
  "generateFilename now d True (Some i) =
     lit ''clay_'' @ sanitize d @ lit ''_variation_'' @ number_toString (i + 1)
     @ 0x5F # timestamp now @ lit ''.png''"
  by (simp add: generateFilename_def lit_def)

lemma variation_filename_inj:
  assumes "generateFilename now d True (Some m) = generateFilename now' d True (Some n)"
  shows "m = n"
proof -
  from assms have "number_toString (m + 1) @ 0x5F # timestamp now @ lit ''.png''
      = number_toString (n + 1) @ 0x5F # timestamp now' @ lit ''.png''"
    by (simp only: variation_filename_eq same_append_eq)
  then have "m + 1 = n + 1" by (rule number_then_underscore_inj)
  then show ?thesis by simp
qed







lemma generateFilename_shape:
  "generateFilename now d isVariation idx =
     lit ''clay_'' @ sanitize d @ lit ''_''
     @ (case idx of
          Some n \<Rightarrow>
            if isVariation then lit ''variation_'' @ number_toString (n + 1) @ lit ''_'' else []
        | None \<Rightarrow> [])
     @ timestamp now @ lit ''.png''"
  by (simp add: generateFilename_def lit_def split: option.split)





section \<open>The prompt\<close>

lemma generatePrompt_split:
  "generatePrompt d (Some s) = lit ''Stylized 3D cartoon prop of '' @ d @ prompt_tail s"
  by (simp add: generatePrompt_def prompt_tail_def)

lemma sublist_in_tail: "sublist q (prompt_tail s) \<Longrightarrow> sublist q (generatePrompt d (Some s))"
proof -
  assume "sublist q (prompt_tail s)"
  moreover have "sublist (prompt_tail s) (generatePrompt d (Some s))"
    unfolding generatePrompt_split by (intro suffix_imp_sublist) (simp add: suffix_def)
  ultimately show ?thesis by (rule sublist_order.order.trans)
qed

lemma tail_clay: "sublist (lit ''clay-like texture'') (prompt_tail s)"
proof -
  have "prompt_tail s = lit '', playful '' @ lit ''clay-like texture''
      @ drop 27 (prompt_tail s)"
    by (simp add: prompt_tail_def lit_def)
  then show ?thesis by (metis sublist_appendI)
qed

lemma tail_smooth: "sublist (lit ''smooth surface finish'') (prompt_tail s)"
proof -
  have "prompt_tail s = take 29 (prompt_tail s) @ lit ''smooth surface finish''
      @ drop 50 (prompt_tail s)"
    by (simp add: prompt_tail_def lit_def)
  then show ?thesis by (metis sublist_appendI)
qed

lemma tail_white: "sublist (lit ''white background'') (prompt_tail s)"
proof -
  have "prompt_tail s = take 81 (prompt_tail s) @ lit ''white background''
      @ drop 97 (prompt_tail s)"
    by (simp add: prompt_tail_def lit_def)
  then show ?thesis by (metis sublist_appendI)
qed

lemma tail_rest:
  "sublist (lit ''soft studio lighting'') (prompt_tail s)"
  "sublist (lit ''1:1 aspect ratio'') (prompt_tail s)"
  "sublist (lit ''1024x1024'') (prompt_tail s)"
proof -
  have "prompt_tail s = take (length (prompt_tail s) - 51) (prompt_tail s)
      @ lit ''soft studio lighting'' @ lit '' '' @ [0x2014] @ lit '' 1:1 aspect ratio ''
      @ [0x2014] @ lit '' 1024x1024''"
    by (cases s) (simp_all add: prompt_tail_def lit_def)
  then show "sublist (lit ''soft studio lighting'') (prompt_tail s)"
    by (metis sublist_appendI)
  have "prompt_tail s = take (length (prompt_tail s) - 28) (prompt_tail s)
      @ lit ''1:1 aspect ratio'' @ lit '' '' @ [0x2014] @ lit '' 1024x1024''"
    by (cases s) (simp_all add: prompt_tail_def lit_def)
  then show "sublist (lit ''1:1 aspect ratio'') (prompt_tail s)"
    by (metis sublist_appendI)
  have "prompt_tail s = take (length (prompt_tail s) - 9) (prompt_tail s) @ lit ''1024x1024''"
    by (cases s) (simp_all add: prompt_tail_def lit_def)
  then show "sublist (lit ''1024x1024'') (prompt_tail s)"
    by (metis sublist_append_leftI)
qed

lemma tail_clause: "sublist (lit '', no shadows'') (prompt_tail s) \<longleftrightarrow> \<not> s"
proof (cases s)
  case True
  have "\<not> sublist (lit '', no shadows'') (prompt_tail True)" by code_simp
  with True show ?thesis by simp
next
  case False
  have "prompt_tail False = take 97 (prompt_tail False) @ lit '', no shadows''
      @ drop 109 (prompt_tail False)"
    by (simp add: prompt_tail_def lit_def)
  then have "sublist (lit '', no shadows'') (prompt_tail False)" by (metis sublist_appendI)
  with False show ?thesis by simp
qed

lemma no_straddle_left:
  assumes "sublist (x # c) (h @ r)" "x \<notin> set h"
  shows "sublist (x # c) r"
proof -
  from assms(1) consider "sublist (x # c) h" | "sublist (x # c) r"
    | c1 c2 where "x # c = c1 @ c2" "suffix c1 h" "prefix c2 r"
    unfolding sublist_append by blast
  then show ?thesis
  proof cases
    case 1
    then have "x \<in> set h" using set_mono_sublist by fastforce
    with assms(2) show ?thesis by simp
  next
    case 2
    then show ?thesis .
  next
    case 3
    show ?thesis
    proof (cases c1)
      case Nil
      with 3 show ?thesis by simp
    next
      case (Cons a as)
      with 3(1) have "a = x" by simp
      with Cons 3(2) have "x \<in> set h" by (auto simp: suffix_def)
      with assms(2) show ?thesis by simp
    qed
  qed
qed

lemma no_straddle_right:
  assumes "sublist (x # c) (d @ x # t)" "x \<notin> set c" "\<not> sublist (x # c) (x # t)"
  shows "sublist (x # c) d"
proof -
  from assms(1) consider "sublist (x # c) d" | "sublist (x # c) (x # t)"
    | c1 c2 where "x # c = c1 @ c2" "suffix c1 d" "prefix c2 (x # t)"
    unfolding sublist_append by blast
  then show ?thesis
  proof cases
    case 1
    then show ?thesis .
  next
    case 2
    with assms(3) show ?thesis by simp
  next
    case 3
    show ?thesis
    proof (cases c1)
      case Nil
      with 3 have "prefix (x # c) (x # t)" by simp
      with assms(3) show ?thesis by (simp add: prefix_imp_sublist)
    next
      case c1: (Cons a as)
      show ?thesis
      proof (cases c2)
        case Nil
        with 3 show ?thesis by (simp add: suffix_imp_sublist)
      next
        case (Cons b bs)
        with 3(3) have "b = x" by simp
        with Cons c1 3(1) have "x \<in> set c" by auto
        with assms(2) show ?thesis by simp
      qed
    qed
  qed
qed

lemma clause_in_prompt:
  "sublist (lit '', no shadows'') (generatePrompt d (Some s))
     \<longleftrightarrow> (\<not> s \<or> sublist (lit '', no shadows'') d)"
proof (cases s)
  case False
  then show ?thesis using sublist_in_tail tail_clause by blast
next
  case True
  have c: "lit '', no shadows'' = 0x2C # lit '' no shadows''" by (simp add: lit_def)
  have t: "prompt_tail True = 0x2C # tl (prompt_tail True)"
    by (simp add: prompt_tail_def lit_def)
  have h: "(0x2C :: 16 word) \<notin> set (lit ''Stylized 3D cartoon prop of '')"
    by (simp add: lit_def)
  have r: "(0x2C :: 16 word) \<notin> set (lit '' no shadows'')" by (simp add: lit_def)
  have n: "\<not> sublist (0x2C # lit '' no shadows'') (0x2C # tl (prompt_tail True))"
    using tail_clause[of True] unfolding c t[symmetric] by simp
  show ?thesis
  proof
    assume "sublist (lit '', no shadows'') (generatePrompt d (Some s))"
    then have "sublist (0x2C # lit '' no shadows'')
        (lit ''Stylized 3D cartoon prop of '' @ d @ prompt_tail True)"
      using True by (simp only: generatePrompt_split c)
    then have "sublist (0x2C # lit '' no shadows'') (d @ prompt_tail True)"
      using h by (rule no_straddle_left)
    then have "sublist (0x2C # lit '' no shadows'') (d @ 0x2C # tl (prompt_tail True))"
      using t by simp
    then have "sublist (0x2C # lit '' no shadows'') d"
      using r n by (rule no_straddle_right)
    then show "\<not> s \<or> sublist (lit '', no shadows'') d" by (simp add: c)
  next
    assume "\<not> s \<or> sublist (lit '', no shadows'') d"
    with True have "sublist (lit '', no shadows'') d" by simp
    moreover have "sublist d (generatePrompt d (Some s))"
      unfolding generatePrompt_split by simp
    ultimately show "sublist (lit '', no shadows'') (generatePrompt d (Some s))"
      by (rule sublist_order.order.trans)
  qed
qed

text \<open>
  C6, the claim as stated fails: with shadows switched on, a description that itself
  holds the words of the no-shadow clause puts them into the prompt.
\<close>

theorem generatePrompt_no_shadows_counterexample:
  "\<not> (sublist (lit '', no shadows'') (generatePrompt (lit ''cat, no shadows'') (Some True))
       \<longleftrightarrow> True = False)"
  by (simp add: generatePrompt_def lit_def sublist_code prefix_code)

text \<open>
  C6, amended. For every description and boolean shadows flag the prompt contains the
  description verbatim and the fixed qualifier clauses (clay-like texture, smooth surface
  finish, white background, soft studio lighting, 1:1 aspect ratio, 1024x1024); it
  contains the no-shadow clause if and only if shadows is false or the description itself
  contains that clause.
\<close>

theorem generatePrompt_contents:
  "sublist d (generatePrompt d (Some s))
   \<and> sublist (lit ''clay-like texture'') (generatePrompt d (Some s))
   \<and> sublist (lit ''smooth surface finish'') (generatePrompt d (Some s))
   \<and> sublist (lit ''white background'') (generatePrompt d (Some s))
   \<and> sublist (lit ''soft studio lighting'') (generatePrompt d (Some s))
   \<and> sublist (lit ''1:1 aspect ratio'') (generatePrompt d (Some s))
   \<and> sublist (lit ''1024x1024'') (generatePrompt d (Some s))
   \<and> (sublist (lit '', no shadows'') (generatePrompt d (Some s))
        \<longleftrightarrow> (\<not> s \<or> sublist (lit '', no shadows'') d))"
proof (intro conjI)
  show "sublist d (generatePrompt d (Some s))"
    unfolding generatePrompt_split by simp
  show "sublist (lit '', no shadows'') (generatePrompt d (Some s))
        \<longleftrightarrow> (\<not> s \<or> sublist (lit '', no shadows'') d)"
    by (rule clause_in_prompt)
qed (rule sublist_in_tail, rule tail_clay tail_smooth tail_white tail_rest)+

theorem generatePrompt_contents_witness:
  "\<not> False
   \<and> sublist (lit ''cute robot'') (generatePrompt (lit ''cute robot'') (Some False))
   \<and> sublist (lit ''white background'') (generatePrompt (lit ''cute robot'') (Some False))
   \<and> sublist (lit '', no shadows'') (generatePrompt (lit ''cute robot'') (Some False))"
  using generatePrompt_contents[of "lit ''cute robot''" False] by blast

section \<open>Generating images\<close>


lemma generateClayImage_success_path:
  assumes "snd (generateClayImage self env config) = Inr p"
  shows "p = or_else (outputPath config)
              ((case outputDir config of None \<Rightarrow> defaultOutputDir | Some d \<Rightarrow> d) @ lit ''/''
               @ generateFilename (clock env) (userInput config) False None)"
  using assms
  by (auto simp: generateClayImage_def thrown_def Let_def
      split: if_splits sum.splits api_outcome.splits)

lemma variation_config_path:
  "or_else (outputPath (variation_config self w d i)) x =
     defaultOutputDir @ lit ''/'' @ generateFilename (stamps w i) d True (Some i)"
  by (simp add: variation_config_def or_else_def defaultOutputDir_def lit_def)

lemma variation_call_path:
  assumes "\<not> isl (snd (generateClayImage self (calls w i) (variation_config self w d i)))"
  shows "snd (generateClayImage self (calls w i) (variation_config self w d i))
         = Inr (defaultOutputDir @ lit ''/'' @ generateFilename (stamps w i) d True (Some i))"
proof -
  from assms obtain p where p: "snd (generateClayImage self (calls w i) (variation_config self w d i)) = Inr p"
    by (cases "snd (generateClayImage self (calls w i) (variation_config self w d i))") auto
  from generateClayImage_success_path[OF p] show ?thesis
    unfolding p by (simp only: variation_config_path)
qed

lemma promise_all_fulfilled:
  assumes "\<forall>r \<in> set rs. \<not> isl r"
  shows "promise_all f rs = Inr (map projr rs)"
proof -
  have "filter (\<lambda>i. isl (rs ! i)) [0..<length rs] = []"
    using assms by (auto simp: filter_empty_conv)
  then show ?thesis by (simp add: promise_all_def)
qed

lemma promise_all_rejected:
  assumes "i < length rs" "isl (rs ! i)"
  shows "\<exists>j < length rs. isl (rs ! j) \<and> promise_all f rs = Inl (projl (rs ! j))"
proof -
  let ?bad = "filter (\<lambda>i. isl (rs ! i)) [0..<length rs]"
  from assms have "i \<in> set ?bad" by simp
  then obtain b bs where bad: "?bad = b # bs" by (cases ?bad) auto
  then have "arg_min_list f (b # bs) \<in> set ?bad"
    by (metis arg_min_list_in list.distinct(1))
  then have "arg_min_list f (b # bs) < length rs" "isl (rs ! arg_min_list f (b # bs))" by auto
  moreover have "promise_all f rs = Inl (projl (rs ! arg_min_list f (b # bs)))"
    by (simp add: promise_all_def bad)
  ultimately show ?thesis by blast
qed

lemma variation_paths_distinct:
  "distinct (map (\<lambda>i. defaultOutputDir @ lit ''/'' @ generateFilename (stamps w i) d True (Some i)) [0..<n])"
proof -
  have "inj_on (\<lambda>i. defaultOutputDir @ lit ''/'' @ generateFilename (stamps w i) d True (Some i)) (set [0..<n])"
    by (rule inj_onI) (auto dest: variation_filename_inj)
  then show ?thesis by (simp add: distinct_map)
qed

lemma generateMultipleVariations_result:
  assumes "array_length (Num N) = Inr n"
  shows "snd (generateMultipleVariations self w d (Some (Num N)))
         = promise_all (settled_at w)
             (map (\<lambda>i. snd (generateClayImage self (calls w i) (variation_config self w d i))) [0..<n])"
  using assms by (simp add: generateMultipleVariations_def Let_def comp_def split: sum.splits)

text \<open>
  C1. For every description and every count \<open>N\<close> from 1 up to the largest array length, if
  each of the \<open>N\<close> underlying calls of \<^verbatim>\<open>generateClayImage\<close> succeeds,
  \<^verbatim>\<open>generateMultipleVariations\<close> returns exactly \<open>N\<close> paths, pairwise distinct, the path of
  index \<open>i\<close> built from the variation-indexed file name of \<open>i\<close>. (For a larger count
  \<^verbatim>\<open>Array.from\<close> throws before any call is made, so no \<open>N\<close> calls succeed.)
\<close>

theorem generateMultipleVariations_all_succeed:
  assumes "1 \<le> N" "N \<le> 4294967295"
    and "\<forall>i < nat N. \<not> isl (snd (generateClayImage self (calls w i) (variation_config self w d i)))"
  shows "\<exists>paths. snd (generateMultipleVariations self w d (Some (Num N))) = Inr paths
           \<and> length paths = nat N \<and> distinct paths
           \<and> paths = map (\<lambda>i. defaultOutputDir @ lit ''/''
                                @ generateFilename (stamps w i) d True (Some i)) [0..<nat N]"
proof -
  let ?call = "\<lambda>i. generateClayImage self (calls w i) (variation_config self w d i)"
  let ?path = "\<lambda>i. defaultOutputDir @ lit ''/'' @ generateFilename (stamps w i) d True (Some i)"
  have len: "array_length (Num N) = Inr (nat N)"
    using assms(2) by (simp add: array_length_def)
  have each: "snd (?call i) = Inr (?path i)" if "i < nat N" for i
    using that assms(3) by (intro variation_call_path) simp
  then have results: "map (\<lambda>i. snd (?call i)) [0..<nat N] = map (\<lambda>i. Inr (?path i)) [0..<nat N]"
    by simp
  have "promise_all (settled_at w) (map (\<lambda>i. snd (?call i)) [0..<nat N])
        = Inr (map projr (map (\<lambda>i. snd (?call i)) [0..<nat N]))"
    by (rule promise_all_fulfilled) (use assms(3) in auto)
  also have "\<dots> = Inr (map ?path [0..<nat N])"
    by (simp only: results) (simp add: comp_def)
  finally have "snd (generateMultipleVariations self w d (Some (Num N))) = Inr (map ?path [0..<nat N])"
    by (simp only: generateMultipleVariations_result[OF len])
  moreover have "distinct (map ?path [0..<nat N])" by (rule variation_paths_distinct)
  ultimately show ?thesis by simp
qed

lemma stub_call_ok:
  "snd (generateClayImage self (stub_env now) (variation_config self (stub_world now) d i))
   = Inr (defaultOutputDir @ lit ''/'' @ generateFilename now d True (Some i))"
  by (simp add: generateClayImage_def stub_env_def stub_world_def first_image_bytes_def
      to_bytes_def variation_config_def or_else_def defaultOutputDir_def lit_def Let_def)

theorem generateMultipleVariations_all_succeed_witness:
  "(1::int) \<le> 2 \<and> (2::int) \<le> 4294967295
   \<and> \<not> isl (snd (generateClayImage \<lparr>agent_shadows = False\<rparr>
         (calls (stub_world (lit ''2025-01-02T03:04:05.678Z'')) 0)
         (variation_config \<lparr>agent_shadows = False\<rparr> (stub_world (lit ''2025-01-02T03:04:05.678Z''))
            (lit ''cat'') 0)))
   \<and> \<not> isl (snd (generateClayImage \<lparr>agent_shadows = False\<rparr>
         (calls (stub_world (lit ''2025-01-02T03:04:05.678Z'')) 1)
         (variation_config \<lparr>agent_shadows = False\<rparr> (stub_world (lit ''2025-01-02T03:04:05.678Z''))
            (lit ''cat'') 1)))
   \<and> snd (generateMultipleVariations \<lparr>agent_shadows = False\<rparr>
         (stub_world (lit ''2025-01-02T03:04:05.678Z'')) (lit ''cat'') (Some (Num 2)))
       = Inr [lit ''./output/clay_cat_variation_1_2025-01-02T03-04-05-678Z.png'',
              lit ''./output/clay_cat_variation_2_2025-01-02T03-04-05-678Z.png'']"
proof -
  let ?w = "stub_world (lit ''2025-01-02T03:04:05.678Z'')"
  let ?self = "\<lparr>agent_shadows = False\<rparr>"
  have calls: "calls ?w i = stub_env (lit ''2025-01-02T03:04:05.678Z'')" for i
    by (simp add: stub_world_def)
  have ok: "\<not> isl (snd (generateClayImage ?self (calls ?w i) (variation_config ?self ?w (lit ''cat'') i)))"
    for i
    by (simp only: calls stub_call_ok) simp
  then have all: "\<forall>i < nat 2. \<not> isl (snd (generateClayImage ?self (calls ?w i)
      (variation_config ?self ?w (lit ''cat'') i)))"
    by blast
  have two: "[0..<nat 2] = [0, 1]" by code_simp
  have names: "defaultOutputDir @ lit ''/'' @ generateFilename (stamps ?w 0) (lit ''cat'') True (Some 0)
      = lit ''./output/clay_cat_variation_1_2025-01-02T03-04-05-678Z.png''"
    "defaultOutputDir @ lit ''/'' @ generateFilename (stamps ?w 1) (lit ''cat'') True (Some 1)
      = lit ''./output/clay_cat_variation_2_2025-01-02T03-04-05-678Z.png''"
    by (simp_all add: stub_world_def generateFilename_def sanitize_def timestamp_def lit_def
        is_alnum_def number_toString.simps defaultOutputDir_def)
  have b1: "(1::int) \<le> 2" and b2: "(2::int) \<le> 4294967295" by simp_all
  from generateMultipleVariations_all_succeed[OF b1 b2 all]
  have "snd (generateMultipleVariations ?self ?w (lit ''cat'') (Some (Num 2)))
       = Inr [lit ''./output/clay_cat_variation_1_2025-01-02T03-04-05-678Z.png'',
              lit ''./output/clay_cat_variation_2_2025-01-02T03-04-05-678Z.png'']"
    by (auto simp only: two list.map names)
  with ok b1 b2 show ?thesis by blast
qed

text \<open>
  C2. If any one of the underlying calls fails, \<^verbatim>\<open>generateMultipleVariations\<close> fails as
  a whole: its result is an error and no list of paths, and that error is the error of
  one of the failed calls.
\<close>

theorem generateMultipleVariations_any_failure:
  assumes "i < nat N"
    and "isl (snd (generateClayImage self (calls w i) (variation_config self w d i)))"
  shows "\<exists>e. snd (generateMultipleVariations self w d (Some (Num N))) = Inl e
           \<and> (N \<le> 4294967295 \<longrightarrow>
                (\<exists>j < nat N. snd (generateClayImage self (calls w j) (variation_config self w d j))
                                = Inl e))"
proof (cases "N \<le> 4294967295")
  case False
  then have "array_length (Num N) = Inl RangeError" by (simp add: array_length_def)
  then have "snd (generateMultipleVariations self w d (Some (Num N))) = Inl RangeError"
    by (simp add: generateMultipleVariations_def)
  with False show ?thesis by simp
next
  case True
  let ?call = "\<lambda>i. generateClayImage self (calls w i) (variation_config self w d i)"
  let ?rs = "map (\<lambda>i. snd (?call i)) [0..<nat N]"
  have len: "array_length (Num N) = Inr (nat N)"
    using True by (simp add: array_length_def)
  have "i < length ?rs" "isl (?rs ! i)" using assms by simp_all
  from promise_all_rejected[OF this, of "settled_at w"]
  obtain j where j: "j < nat N" "isl (snd (?call j))"
    "promise_all (settled_at w) ?rs = Inl (projl (snd (?call j)))"
    by auto
  from j(2) have e: "snd (?call j) = Inl (projl (snd (?call j)))" by simp
  have "snd (generateMultipleVariations self w d (Some (Num N))) = Inl (projl (snd (?call j)))"
    by (simp only: generateMultipleVariations_result[OF len] j(3))
  with j(1) e show ?thesis by metis
qed

theorem generateMultipleVariations_any_failure_witness:
  "(1::nat) < nat 3
   \<and> isl (snd (generateClayImage \<lparr>agent_shadows = False\<rparr>
        (calls (flaky_world (lit ''2025-01-02T03:04:05.678Z'')) 1)
        (variation_config \<lparr>agent_shadows = False\<rparr> (flaky_world (lit ''2025-01-02T03:04:05.678Z''))
           (lit ''cat'') 1)))
   \<and> (\<exists>e. snd (generateMultipleVariations \<lparr>agent_shadows = False\<rparr>
         (flaky_world (lit ''2025-01-02T03:04:05.678Z'')) (lit ''cat'') (Some (Num 3))) = Inl e)"
proof -
  let ?w = "flaky_world (lit ''2025-01-02T03:04:05.678Z'')"
  let ?self = "\<lparr>agent_shadows = False\<rparr>"
  have i: "(1::nat) < nat 3" by simp
  have bad: "isl (snd (generateClayImage ?self (calls ?w 1) (variation_config ?self ?w (lit ''cat'') 1)))"
    by (simp add: generateClayImage_def flaky_world_def empty_env_def stub_env_def
        first_image_bytes_def thrown_def Let_def)
  from generateMultipleVariations_any_failure[OF i bad] i bad show ?thesis by blast
qed






lemma matches_template_length: "matches_template ts cs \<Longrightarrow> length cs = length ts"
  by (induction ts cs rule: matches_template.induct) simp_all

lemma timestamp_inj_on_template:
  "matches_template ts a \<Longrightarrow> matches_template ts b \<Longrightarrow> timestamp a = timestamp b \<Longrightarrow> a = b"
proof (induction ts a arbitrary: b rule: matches_template.induct)
  case 1
  then show ?case by (cases b) simp_all
next
  case (2 t ts c cs)
  from 2(3) obtain c' cs' where b: "b = c' # cs'" by (cases b) simp_all
  from 2(2) 2(3) b have m: "matches_template ts cs" "matches_template ts cs'" by simp_all
  from 2(4) b have tl: "timestamp cs = timestamp cs'" by (simp add: timestamp_def)
  from 2(1)[OF m tl] have "cs = cs'" .
  moreover have "c = c'"
  proof (cases "t = CHR ''d''")
    case True
    with 2(2) 2(3) b have "is_digit c" "is_digit c'" by simp_all
    moreover from 2(4) b have "(if c = 0x3A \<or> c = 0x2E then 0x2D else c)
        = (if c' = 0x3A \<or> c' = 0x2E then 0x2D else c')"
      by (simp add: timestamp_def)
    ultimately show ?thesis by (auto simp: is_digit_def split: if_splits)
  next
    case False
    with 2(2) 2(3) b show ?thesis by simp
  qed
  ultimately show ?case using b by simp
qed simp_all

lemma stamped_paths_differ:
  assumes "iso_format now1" "iso_format now2" "now1 \<noteq> now2"
  shows "dir1 @ lit ''/'' @ generateFilename now1 d1 v1 i1
         \<noteq> dir2 @ lit ''/'' @ generateFilename now2 d2 v2 i2"
proof
  assume eq: "dir1 @ lit ''/'' @ generateFilename now1 d1 v1 i1
      = dir2 @ lit ''/'' @ generateFilename now2 d2 v2 i2"
  have len: "length (timestamp now1 @ lit ''.png'') = length (timestamp now2 @ lit ''.png'')"
    using assms(1,2) by (simp add: iso_format_def timestamp_def matches_template_length)
  obtain x1 where x1: "dir1 @ lit ''/'' @ generateFilename now1 d1 v1 i1
      = x1 @ (timestamp now1 @ lit ''.png'')"
    unfolding generateFilename_shape by (metis append.assoc)
  obtain x2 where x2: "dir2 @ lit ''/'' @ generateFilename now2 d2 v2 i2
      = x2 @ (timestamp now2 @ lit ''.png'')"
    unfolding generateFilename_shape by (metis append.assoc)
  from eq x1 x2 have "x1 @ (timestamp now1 @ lit ''.png'') = x2 @ (timestamp now2 @ lit ''.png'')"
    by simp
  with len have "timestamp now1 = timestamp now2" by simp
  with assms(1,2) have "now1 = now2"
    unfolding iso_format_def by (blast intro: timestamp_inj_on_template)
  with assms(3) show False by simp
qed

lemma single_config_path:
  assumes "snd (generateClayImage self env (single_config args d)) = Inr p"
  shows "p = or_else (arg_output args) (lit ''./output/'' @ sanitize d @ lit ''.png'')"
proof -
  have "or_else (arg_output args) (lit ''./output/'' @ sanitize d @ lit ''.png'') \<noteq> []"
    by (simp add: or_else_def lit_def split: option.splits)
  then have "or_else (outputPath (single_config args d)) x
      = or_else (arg_output args) (lit ''./output/'' @ sanitize d @ lit ''.png'')" for x
    by (simp add: single_config_def or_else_def)
  with generateClayImage_success_path[OF assms] show ?thesis by simp
qed

text \<open>
  C3, amended. Two successful requests that leave the output path to
  \<^verbatim>\<open>generateClayImage\<close> resolve to different paths whenever their clock readings differ;
  two variations of one batch with different indices resolve to different paths; a
  single-command request resolves to a path fixed by its arguments alone, so two such
  requests with the same arguments share their path.
\<close>

theorem output_paths:
  "(outputPath c1 = None \<and> outputPath c2 = None
      \<and> snd (generateClayImage s1 e1 c1) = Inr p1 \<and> snd (generateClayImage s2 e2 c2) = Inr p2
      \<and> iso_format (clock e1) \<and> iso_format (clock e2) \<and> clock e1 \<noteq> clock e2
      \<longrightarrow> p1 \<noteq> p2)
   \<and> (j \<noteq> k
      \<and> snd (generateClayImage s (calls w j) (variation_config s w d j)) = Inr q1
      \<and> snd (generateClayImage s (calls w k) (variation_config s w d k)) = Inr q2
      \<longrightarrow> q1 \<noteq> q2)
   \<and> (snd (generateClayImage s3 e3 (single_config args d3)) = Inr p3
      \<and> snd (generateClayImage s4 e4 (single_config args d3)) = Inr p4
      \<longrightarrow> p3 = p4)"
proof (intro conjI impI)
  assume a: "outputPath c1 = None \<and> outputPath c2 = None
      \<and> snd (generateClayImage s1 e1 c1) = Inr p1 \<and> snd (generateClayImage s2 e2 c2) = Inr p2
      \<and> iso_format (clock e1) \<and> iso_format (clock e2) \<and> clock e1 \<noteq> clock e2"
  then have r1: "snd (generateClayImage s1 e1 c1) = Inr p1"
    and r2: "snd (generateClayImage s2 e2 c2) = Inr p2" by simp_all
  from generateClayImage_success_path[OF r1] a
  have p1: "p1 = (case outputDir c1 of None \<Rightarrow> defaultOutputDir | Some d \<Rightarrow> d) @ lit ''/''
      @ generateFilename (clock e1) (userInput c1) False None"
    by (simp add: or_else_def)
  from generateClayImage_success_path[OF r2] a
  have p2: "p2 = (case outputDir c2 of None \<Rightarrow> defaultOutputDir | Some d \<Rightarrow> d) @ lit ''/''
      @ generateFilename (clock e2) (userInput c2) False None"
    by (simp add: or_else_def)
  from a have "iso_format (clock e1)" "iso_format (clock e2)" "clock e1 \<noteq> clock e2" by simp_all
  then show "p1 \<noteq> p2" unfolding p1 p2 by (rule stamped_paths_differ)
next
  assume b: "j \<noteq> k
      \<and> snd (generateClayImage s (calls w j) (variation_config s w d j)) = Inr q1
      \<and> snd (generateClayImage s (calls w k) (variation_config s w d k)) = Inr q2"
  then have r1: "snd (generateClayImage s (calls w j) (variation_config s w d j)) = Inr q1"
    and r2: "snd (generateClayImage s (calls w k) (variation_config s w d k)) = Inr q2"
    by simp_all
  from generateClayImage_success_path[OF r1]
  have q1: "q1 = defaultOutputDir @ lit ''/'' @ generateFilename (stamps w j) d True (Some j)"
    by (simp only: variation_config_path)
  from generateClayImage_success_path[OF r2]
  have q2: "q2 = defaultOutputDir @ lit ''/'' @ generateFilename (stamps w k) d True (Some k)"
    by (simp only: variation_config_path)
  from b show "q1 \<noteq> q2" unfolding q1 q2 by (auto dest: variation_filename_inj)
next
  assume c: "snd (generateClayImage s3 e3 (single_config args d3)) = Inr p3
      \<and> snd (generateClayImage s4 e4 (single_config args d3)) = Inr p4"
  then show "p3 = p4" by (auto dest!: single_config_path)
qed

lemma stub_plain:
  "snd (generateClayImage self (stub_env now) (plain_config d))
   = Inr (lit ''./output/'' @ generateFilename now d False None)"
  by (simp add: generateClayImage_def stub_env_def plain_config_def first_image_bytes_def
      to_bytes_def or_else_def lit_def Let_def)

lemma stub_single:
  "snd (generateClayImage self (stub_env now) (single_config (no_flags ps) d))
   = Inr (lit ''./output/'' @ sanitize d @ lit ''.png'')"
  by (simp add: generateClayImage_def stub_env_def single_config_def no_flags_def
      first_image_bytes_def to_bytes_def or_else_def lit_def Let_def)

lemma stub_variation:
  "snd (generateClayImage self (calls (stub_world now) i) (variation_config self (stub_world now) d i))
   = Inr (lit ''./output/'' @ generateFilename now d True (Some i))"
proof -
  have "calls (stub_world now) i = stub_env now" by (simp add: stub_world_def)
  then show ?thesis by (simp add: stub_call_ok defaultOutputDir_def lit_def)
qed

lemma filename_values:
  "generateFilename (lit ''2025-01-02T03:04:05.678Z'') (lit ''cat'') False None
     = lit ''clay_cat_2025-01-02T03-04-05-678Z.png''"
  "generateFilename (lit ''2026-06-07T08:09:10.111Z'') (lit ''cat'') False None
     = lit ''clay_cat_2026-06-07T08-09-10-111Z.png''"
  "generateFilename (lit ''2025-01-02T03:04:05.678Z'') (lit ''cat'') True (Some 0)
     = lit ''clay_cat_variation_1_2025-01-02T03-04-05-678Z.png''"
  "generateFilename (lit ''2025-01-02T03:04:05.678Z'') (lit ''cat'') True (Some 1)
     = lit ''clay_cat_variation_2_2025-01-02T03-04-05-678Z.png''"
  "sanitize (lit ''cat'') = lit ''cat''"
  by (simp_all add: generateFilename_def sanitize_def timestamp_def lit_def is_alnum_def
      number_toString.simps)

theorem output_paths_witness:
  "outputPath (plain_config (lit ''cat'')) = None
   \<and> snd (generateClayImage \<lparr>agent_shadows = False\<rparr> (stub_env (lit ''2025-01-02T03:04:05.678Z''))
          (plain_config (lit ''cat'')))
       = Inr (lit ''./output/'' @ lit ''clay_cat_2025-01-02T03-04-05-678Z.png'')
   \<and> snd (generateClayImage \<lparr>agent_shadows = False\<rparr> (stub_env (lit ''2026-06-07T08:09:10.111Z''))
          (plain_config (lit ''cat'')))
       = Inr (lit ''./output/'' @ lit ''clay_cat_2026-06-07T08-09-10-111Z.png'')
   \<and> iso_format (clock (stub_env (lit ''2025-01-02T03:04:05.678Z'')))
   \<and> iso_format (clock (stub_env (lit ''2026-06-07T08:09:10.111Z'')))
   \<and> clock (stub_env (lit ''2025-01-02T03:04:05.678Z''))
       \<noteq> clock (stub_env (lit ''2026-06-07T08:09:10.111Z''))
   \<and> lit ''./output/'' @ lit ''clay_cat_2025-01-02T03-04-05-678Z.png''
       \<noteq> lit ''./output/'' @ lit ''clay_cat_2026-06-07T08-09-10-111Z.png''
   \<and> (0::nat) \<noteq> 1
   \<and> snd (generateClayImage \<lparr>agent_shadows = False\<rparr>
          (calls (stub_world (lit ''2025-01-02T03:04:05.678Z'')) 0)
          (variation_config \<lparr>agent_shadows = False\<rparr> (stub_world (lit ''2025-01-02T03:04:05.678Z''))
             (lit ''cat'') 0))
       = Inr (lit ''./output/'' @ lit ''clay_cat_variation_1_2025-01-02T03-04-05-678Z.png'')
   \<and> snd (generateClayImage \<lparr>agent_shadows = False\<rparr>
          (calls (stub_world (lit ''2025-01-02T03:04:05.678Z'')) 1)
          (variation_config \<lparr>agent_shadows = False\<rparr> (stub_world (lit ''2025-01-02T03:04:05.678Z''))
             (lit ''cat'') 1))
       = Inr (lit ''./output/'' @ lit ''clay_cat_variation_2_2025-01-02T03-04-05-678Z.png'')
   \<and> lit ''./output/'' @ lit ''clay_cat_variation_1_2025-01-02T03-04-05-678Z.png''
       \<noteq> lit ''./output/'' @ lit ''clay_cat_variation_2_2025-01-02T03-04-05-678Z.png''
   \<and> snd (generateClayImage \<lparr>agent_shadows = False\<rparr> (stub_env (lit ''2025-01-02T03:04:05.678Z''))
          (single_config (no_flags [lit ''cat'']) (lit ''cat'')))
       = Inr (lit ''./output/'' @ lit ''cat'' @ lit ''.png'')
   \<and> snd (generateClayImage \<lparr>agent_shadows = False\<rparr> (stub_env (lit ''2026-06-07T08:09:10.111Z''))
          (single_config (no_flags [lit ''cat'']) (lit ''cat'')))
       = Inr (lit ''./output/'' @ lit ''cat'' @ lit ''.png'')"
proof -
  let ?A = "\<lparr>agent_shadows = False\<rparr>"
  let ?e1 = "stub_env (lit ''2025-01-02T03:04:05.678Z'')"
  let ?e2 = "stub_env (lit ''2026-06-07T08:09:10.111Z'')"
  let ?w = "stub_world (lit ''2025-01-02T03:04:05.678Z'')"
  have n: "outputPath (plain_config (lit ''cat'')) = None" by (simp add: plain_config_def)
  have r1: "snd (generateClayImage ?A ?e1 (plain_config (lit ''cat'')))
       = Inr (lit ''./output/'' @ lit ''clay_cat_2025-01-02T03-04-05-678Z.png'')"
    by (simp only: stub_plain filename_values)
  have r2: "snd (generateClayImage ?A ?e2 (plain_config (lit ''cat'')))
       = Inr (lit ''./output/'' @ lit ''clay_cat_2026-06-07T08-09-10-111Z.png'')"
    by (simp only: stub_plain filename_values)
  have f1: "iso_format (clock ?e1)" and f2: "iso_format (clock ?e2)"
    and ne: "clock ?e1 \<noteq> clock ?e2"
    by (simp_all add: stub_env_def iso_format_def lit_def is_digit_def)
  have jk: "(0::nat) \<noteq> 1" by simp
  have v1: "snd (generateClayImage ?A (calls ?w 0) (variation_config ?A ?w (lit ''cat'') 0))
       = Inr (lit ''./output/'' @ lit ''clay_cat_variation_1_2025-01-02T03-04-05-678Z.png'')"
    by (simp only: stub_variation filename_values)
  have v2: "snd (generateClayImage ?A (calls ?w 1) (variation_config ?A ?w (lit ''cat'') 1))
       = Inr (lit ''./output/'' @ lit ''clay_cat_variation_2_2025-01-02T03-04-05-678Z.png'')"
    by (simp only: stub_variation filename_values)
  have s1: "snd (generateClayImage ?A ?e1 (single_config (no_flags [lit ''cat'']) (lit ''cat'')))
       = Inr (lit ''./output/'' @ lit ''cat'' @ lit ''.png'')"
    by (simp only: stub_single filename_values)
  have s2: "snd (generateClayImage ?A ?e2 (single_config (no_flags [lit ''cat'']) (lit ''cat'')))
       = Inr (lit ''./output/'' @ lit ''cat'' @ lit ''.png'')"
    by (simp only: stub_single filename_values)
  note t = output_paths[of "plain_config (lit ''cat'')" "plain_config (lit ''cat'')" ?A ?e1
      "lit ''./output/'' @ lit ''clay_cat_2025-01-02T03-04-05-678Z.png''" ?A ?e2
      "lit ''./output/'' @ lit ''clay_cat_2026-06-07T08-09-10-111Z.png''"
      0 1 ?A ?w "lit ''cat''"
      "lit ''./output/'' @ lit ''clay_cat_variation_1_2025-01-02T03-04-05-678Z.png''"
      "lit ''./output/'' @ lit ''clay_cat_variation_2_2025-01-02T03-04-05-678Z.png''"
      ?A ?e1 "no_flags [lit ''cat'']" "lit ''cat''" "lit ''./output/'' @ lit ''cat'' @ lit ''.png''"
      ?A ?e2 "lit ''./output/'' @ lit ''cat'' @ lit ''.png''"]
  from t n r1 r2 f1 f2 ne jk v1 v2 s1 s2 show ?thesis by blast
qed

text \<open>
  C3, the claim as stated fails: two single-command invocations without \<^verbatim>\<open>--output\<close> for
  the same description, at different times, both succeed and both write
  \<^verbatim>\<open>./output/cute_cat.png\<close>.
\<close>

theorem single_command_path_counterexample:
  "Do (WriteFile (lit ''./output/cute_cat.png'') [0x89, 0x50, 0x4E, 0x47])
     \<in> set (fst (main (Some (lit ''key'')) (stub_world (lit ''2025-01-02T03:04:05.678Z'')) []
                   (no_flags [lit ''cute cat''])))
   \<and> snd (main (Some (lit ''key'')) (stub_world (lit ''2025-01-02T03:04:05.678Z'')) []
             (no_flags [lit ''cute cat''])) = Finished
   \<and> Do (WriteFile (lit ''./output/cute_cat.png'') [0x89, 0x50, 0x4E, 0x47])
     \<in> set (fst (main (Some (lit ''key'')) (stub_world (lit ''2026-06-07T08:09:10.111Z'')) []
                   (no_flags [lit ''cute cat''])))
   \<and> snd (main (Some (lit ''key'')) (stub_world (lit ''2026-06-07T08:09:10.111Z'')) []
             (no_flags [lit ''cute cat''])) = Finished"
  by (simp add: main_def no_flags_def runSingleCommandMode_def getApiKey_def greater_than_def
      new_ClaySculptorAgent_def generateClayImage_def stub_world_def stub_env_def
      single_config_def first_image_bytes_def to_bytes_def or_else_def sanitize_def
      is_alnum_def lit_def Let_def)


section \<open>Sessions and the command line\<close>

text \<open>
  C4, at a session started with an output directory and a model of its own: the
  variations command creates \<^verbatim>\<open>./output\<close>, asks the built-in model and writes under
  \<^verbatim>\<open>./output\<close>, where a single image of the same session uses the configured directory
  and model.
\<close>

theorem variations_ignore_session_options:
  "Mkdir (lit ''./output'')
     \<in> set (trace_effects (fst (handleCommand configured_session
          (stub_world (lit ''2025-01-02T03:04:05.678Z'')) (lit ''variations 2 cat''))))
   \<and> Mkdir (lit ''./my_creations'')
     \<notin> set (trace_effects (fst (handleCommand configured_session
          (stub_world (lit ''2025-01-02T03:04:05.678Z'')) (lit ''variations 2 cat''))))
   \<and> GenerateImages (lit ''imagen-4.0-generate-001'') (generatePrompt (lit ''cat'') (Some False))
     \<in> set (trace_effects (fst (handleCommand configured_session
          (stub_world (lit ''2025-01-02T03:04:05.678Z'')) (lit ''variations 2 cat''))))
   \<and> WriteFile (lit ''./output/clay_cat_variation_1_2025-01-02T03-04-05-678Z.png'')
        [0x89, 0x50, 0x4E, 0x47]
     \<in> set (trace_effects (fst (handleCommand configured_session
          (stub_world (lit ''2025-01-02T03:04:05.678Z'')) (lit ''variations 2 cat''))))
   \<and> Mkdir (lit ''./my_creations'')
     \<in> set (trace_effects (fst (handleCommand configured_session
          (stub_world (lit ''2025-01-02T03:04:05.678Z'')) (lit ''cat''))))
   \<and> GenerateImages (lit ''imagen-3.0-generate-002'') (generatePrompt (lit ''cat'') (Some False))
     \<in> set (trace_effects (fst (handleCommand configured_session
          (stub_world (lit ''2025-01-02T03:04:05.678Z'')) (lit ''cat''))))
   \<and> WriteFile (lit ''./my_creations/clay_cat_2025-01-02T03-04-05-678Z.png'')
        [0x89, 0x50, 0x4E, 0x47]
     \<in> set (trace_effects (fst (handleCommand configured_session
          (stub_world (lit ''2025-01-02T03:04:05.678Z'')) (lit ''cat''))))"
  by code_simp

lemma getApiKey_absent:
  "key_absent key \<Longrightarrow>
   getApiKey key = ([Do (ConsoleError ApiKeyRequired), Do (ConsoleLog ApiKeyHint)], None)"
  by (auto simp: key_absent_def getApiKey_def)

text \<open>
  C9. With the environment variable \<^verbatim>\<open>GEMINI_API_KEY\<close> absent (or empty), single-command
  mode and interactive mode print the error and the remediation message and exit with
  code 1, and nothing else happens; so does \<^verbatim>\<open>main\<close> whenever it reaches one of the two
  modes, and no run of \<^verbatim>\<open>main\<close> makes a directory, a request or a write.
\<close>

theorem missing_key_exits:
  assumes "key_absent key"
  shows "runSingleCommandMode key w args input
           = ([Do (ConsoleError ApiKeyRequired), Do (ConsoleLog ApiKeyHint)], Exited 1)
         \<and> runInteractiveMode key lines args
           = ([Do (ConsoleError ApiKeyRequired), Do (ConsoleLog ApiKeyHint)], Exited 1)
         \<and> (arg_help args \<noteq> Some True \<and> arg_version args \<noteq> Some True
              \<and> (arg_interactive args = Some True \<or> arg_positional args \<noteq> [])
            \<longrightarrow> main key w lines args
                 = ([Do (ConsoleError ApiKeyRequired), Do (ConsoleLog ApiKeyHint)], Exited 1))
         \<and> filter is_generation_effect (trace_effects (fst (main key w lines args))) = []"
proof -
  have single: "runSingleCommandMode key w args input
           = ([Do (ConsoleError ApiKeyRequired), Do (ConsoleLog ApiKeyHint)], Exited 1)" for input
    by (simp add: runSingleCommandMode_def getApiKey_absent[OF assms] Let_def)
  have inter: "runInteractiveMode key lines args
           = ([Do (ConsoleError ApiKeyRequired), Do (ConsoleLog ApiKeyHint)], Exited 1)"
    by (simp add: runInteractiveMode_def getApiKey_absent[OF assms] Let_def)
  have m: "main key w lines args
                 = ([Do (ConsoleError ApiKeyRequired), Do (ConsoleLog ApiKeyHint)], Exited 1)"
    if "arg_help args \<noteq> Some True \<and> arg_version args \<noteq> Some True
              \<and> (arg_interactive args = Some True \<or> arg_positional args \<noteq> [])"
    using that by (auto simp: main_def single inter split: list.splits)
  have "filter is_generation_effect (trace_effects (fst (main key w lines args))) = []"
    by (simp add: main_def single inter trace_effects_def step_effects_def
        is_generation_effect_def split: list.splits)
  with single inter m show ?thesis by blast
qed

theorem missing_key_exits_witness:
  "key_absent None
   \<and> arg_help (no_flags [lit ''cute robot'']) \<noteq> Some True
   \<and> arg_version (no_flags [lit ''cute robot'']) \<noteq> Some True
   \<and> arg_positional (no_flags [lit ''cute robot'']) \<noteq> []
   \<and> main None (stub_world (lit ''2025-01-02T03:04:05.678Z'')) [] (no_flags [lit ''cute robot''])
       = ([Do (ConsoleError ApiKeyRequired), Do (ConsoleLog ApiKeyHint)], Exited 1)"
proof -
  have k: "key_absent None" by (simp add: key_absent_def)
  have a: "arg_help (no_flags [lit ''cute robot'']) \<noteq> Some True"
    "arg_version (no_flags [lit ''cute robot'']) \<noteq> Some True"
    "arg_positional (no_flags [lit ''cute robot'']) \<noteq> []"
    by (simp_all add: no_flags_def)
  from missing_key_exits[OF k, where args = "no_flags [lit ''cute robot'']"
      and w = "stub_world (lit ''2025-01-02T03:04:05.678Z'')" and lines = "[]"] k a
  show ?thesis by blast
qed









lemma digit_facts:
  assumes "is_digit c"
  shows "\<not> is_space c" "c \<noteq> 0x2D" "c \<noteq> 0x2B" "c \<noteq> 0x78" "c \<noteq> 0x58" "is_radix_digit 10 c"
proof -
  from assms have u: "48 \<le> unat c" "unat c \<le> 57"
    by (simp_all add: is_digit_def word_le_nat_alt)
  have eq: "c = k \<Longrightarrow> unat c = unat k" for k by simp
  show "\<not> is_space c"
    using u by (auto simp: is_space_def is_line_terminator_def word_le_nat_alt dest!: eq)
  show "c \<noteq> 0x2D" "c \<noteq> 0x2B" "c \<noteq> 0x78" "c \<noteq> 0x58"
    using u by (auto dest!: eq)
  show "is_radix_digit 10 c"
    using u assms by (auto simp: is_radix_digit_def digit_value_def is_digit_def)
qed

lemma parseInt_digits:
  assumes "digits \<noteq> []" "list_all is_digit digits"
  shows "parseInt digits = Num (int (digits_value 10 digits))"
proof -
  from assms obtain c cs where d: "digits = c # cs" by (cases digits) auto
  with assms(2) have c: "is_digit c" and cs: "list_all is_digit cs" by simp_all
  have hex: "\<not> (case cs of [] \<Rightarrow> False | b # x \<Rightarrow> c = 0x30 \<and> (b = 0x78 \<or> b = 0x58))"
    using cs by (cases cs) (auto dest: digit_facts)
  have all: "takeWhile (is_radix_digit 10) cs = cs"
    using cs by (simp add: list_all_iff digit_facts)
  show ?thesis
    unfolding parseInt_def d Let_def
    using hex by (simp add: digit_facts[OF c] all)
qed

lemma match_variations_digits:
  assumes "match_variations input = Some (digits, rest)"
  shows "digits \<noteq> []" "list_all is_digit digits" "10 \<le> length input"
proof -
  from assms have up: "map ascii_upper (take 10 input) = lit ''VARIATIONS''"
    by (auto simp: match_variations_def split: if_splits)
  then have "length (map ascii_upper (take 10 input)) = length (lit ''VARIATIONS'')" by simp
  then show "10 \<le> length input" by (simp add: lit_def)
  from assms up have "digits = takeWhile is_digit (dropWhile is_space (drop 10 input))"
    and "takeWhile is_digit (dropWhile is_space (drop 10 input)) \<noteq> []"
    by (auto simp: match_variations_def Let_def split: if_splits option.splits)
  then show "digits \<noteq> []" "list_all is_digit digits"
    by (auto simp: list_all_iff dest: set_takeWhileD)
qed

lemma not_a_session_command:
  assumes "10 \<le> length input"
  shows "toLowerCase input \<noteq> lit ''quit''" "toLowerCase input \<noteq> lit ''exit''"
    "toLowerCase input \<noteq> lit ''help''" "toLowerCase input \<noteq> lit ''clear''"
proof -
  have "length (toLowerCase input) = length input" by (simp add: toLowerCase_def)
  with assms have "10 \<le> length (toLowerCase input)" by simp
  then show "toLowerCase input \<noteq> lit ''quit''" "toLowerCase input \<noteq> lit ''exit''"
    "toLowerCase input \<noteq> lit ''help''" "toLowerCase input \<noteq> lit ''clear''"
    by (auto simp: lit_def)
qed

text \<open>
  C8. For every input that matches the variations pattern, the count parses to a
  non-negative integer. With the count from 1 to 10 the command logs and runs
  \<^verbatim>\<open>generateMultipleVariations\<close> with that count and the trimmed description. With the
  count outside that range the warning is logged and nothing else happens: no generation
  effect, the command does not end the session, and the loop goes on with the next line
  (it is awaiting input when there is none).
\<close>

theorem variations_count_validated:
  assumes "match_variations input = Some (digits, rest)"
  shows "\<exists>n. parseInt digits = Num n \<and> 0 \<le> n
     \<and> (1 \<le> n \<and> n \<le> 10 \<longrightarrow>
          handleVariationsCommand self w input
          = (case generateMultipleVariations (agent self) w (trim rest) (Some (Num n)) of
               (trace, Inl e) \<Rightarrow>
                 (Do (ConsoleLog (GeneratingVariations (Num n) (trim rest))) # trace, Inl e)
             | (trace, Inr paths) \<Rightarrow>
                 (Do (ConsoleLog (GeneratingVariations (Num n) (trim rest))) # trace, Inr True)))
     \<and> (n < 1 \<or> 10 < n \<longrightarrow>
          handleVariationsCommand self w input = ([Do (ConsoleLog SpecifyRange)], Inr True)
          \<and> handleCommand self w input = ([Do (ConsoleLog SpecifyRange)], Inr False)
          \<and> filter is_generation_effect (trace_effects (fst (handleCommand self w input))) = []
          \<and> (\<forall>line later. trim line = input \<longrightarrow>
                session_loop self ((Some line, w) # later)
                = (Do (ConsoleLog SpecifyRange) # fst (session_loop self later),
                   snd (session_loop self later)))
          \<and> (\<forall>line. trim line = input \<longrightarrow>
                session_loop self [(Some line, w)]
                = ([Do (ConsoleLog SpecifyRange)], AwaitingInput)))"
proof -
  note d = match_variations_digits[OF assms]
  let ?n = "int (digits_value 10 digits)"
  have p: "parseInt digits = Num ?n" using d(1,2) by (rule parseInt_digits)
  have inrange: "handleVariationsCommand self w input
          = (case generateMultipleVariations (agent self) w (trim rest) (Some (Num ?n)) of
               (trace, Inl e) \<Rightarrow>
                 (Do (ConsoleLog (GeneratingVariations (Num ?n) (trim rest))) # trace, Inl e)
             | (trace, Inr paths) \<Rightarrow>
                 (Do (ConsoleLog (GeneratingVariations (Num ?n) (trim rest))) # trace, Inr True))"
    if "1 \<le> ?n \<and> ?n \<le> 10"
    using that
    by (simp add: handleVariationsCommand_def assms p Let_def less_than_def greater_than_def)
  have out: "handleVariationsCommand self w input = ([Do (ConsoleLog SpecifyRange)], Inr True)"
    if "?n < 1 \<or> 10 < ?n"
    using that
    by (auto simp: handleVariationsCommand_def assms p Let_def less_than_def greater_than_def)
  have cmd: "handleCommand self w input = ([Do (ConsoleLog SpecifyRange)], Inr False)"
    if "?n < 1 \<or> 10 < ?n"
    by (simp add: handleCommand_def Let_def not_a_session_command[OF d(3)] out[OF that])
  have quiet: "filter is_generation_effect (trace_effects (fst (handleCommand self w input))) = []"
    if "?n < 1 \<or> 10 < ?n"
    by (simp add: cmd[OF that] trace_effects_def step_effects_def is_generation_effect_def)
  have nonempty: "input \<noteq> []" using d(3) by auto
  have loop: "session_loop self ((Some line, w) # later)
                = (Do (ConsoleLog SpecifyRange) # fst (session_loop self later),
                   snd (session_loop self later))"
    if "?n < 1 \<or> 10 < ?n" "trim line = input" for line later
    using nonempty that(2)
    by (simp add: cmd[OF that(1)] split: prod.splits)
  have last: "session_loop self [(Some line, w)] = ([Do (ConsoleLog SpecifyRange)], AwaitingInput)"
    if "?n < 1 \<or> 10 < ?n" "trim line = input" for line
    by (simp only: loop[OF that] session_loop.simps(1) fst_conv snd_conv)
  have "0 \<le> ?n" by simp
  with p inrange out cmd quiet loop last show ?thesis by blast
qed

theorem variations_count_validated_witness:
  "match_variations (lit ''variations 11 cat'') = Some (lit ''11'', lit ''cat'')
   \<and> parseInt (lit ''11'') = Num 11 \<and> (10::int) < 11
   \<and> handleCommand configured_session (stub_world (lit ''2025-01-02T03:04:05.678Z''))
        (lit ''variations 11 cat'')
       = ([Do (ConsoleLog SpecifyRange)], Inr False)
   \<and> trim (lit '' variations 11 cat '') = lit ''variations 11 cat''
   \<and> session_loop configured_session
        [(Some (lit '' variations 11 cat ''), stub_world (lit ''2025-01-02T03:04:05.678Z''))]
       = ([Do (ConsoleLog SpecifyRange)], AwaitingInput)
   \<and> match_variations (lit ''variations 0 cat'') = Some (lit ''0'', lit ''cat'')
   \<and> parseInt (lit ''0'') = Num 0 \<and> (0::int) < 1
   \<and> handleCommand configured_session (stub_world (lit ''2025-01-02T03:04:05.678Z''))
        (lit ''variations 0 cat'')
       = ([Do (ConsoleLog SpecifyRange)], Inr False)
   \<and> match_variations (lit ''variations 3 cute cat'') = Some (lit ''3'', lit ''cute cat'')
   \<and> parseInt (lit ''3'') = Num 3 \<and> (1::int) \<le> 3 \<and> (3::int) \<le> 10
   \<and> (\<exists>trace. fst (handleVariationsCommand configured_session
                       (stub_world (lit ''2025-01-02T03:04:05.678Z'')) (lit ''variations 3 cute cat''))
         = Do (ConsoleLog (GeneratingVariations (Num 3) (trim (lit ''cute cat'')))) # trace)"
proof -
  let ?w = "stub_world (lit ''2025-01-02T03:04:05.678Z'')"
  let ?s = configured_session
  have m11: "match_variations (lit ''variations 11 cat'') = Some (lit ''11'', lit ''cat'')"
    and m0: "match_variations (lit ''variations 0 cat'') = Some (lit ''0'', lit ''cat'')"
    and m3: "match_variations (lit ''variations 3 cute cat'') = Some (lit ''3'', lit ''cute cat'')"
    and p11: "parseInt (lit ''11'') = Num 11" and p0: "parseInt (lit ''0'') = Num 0"
    and p3: "parseInt (lit ''3'') = Num 3"
    and tr: "trim (lit '' variations 11 cat '') = lit ''variations 11 cat''"
    by code_simp+
  have c: "(10::int) < 11" "(0::int) < 1" "(1::int) \<le> 3" "(3::int) \<le> 10" by simp_all
  from variations_count_validated[OF m11, of ?s ?w] p11 c(1)
  have a: "handleCommand ?s ?w (lit ''variations 11 cat'') = ([Do (ConsoleLog SpecifyRange)], Inr False)"
    "\<forall>line. trim line = lit ''variations 11 cat'' \<longrightarrow>
       session_loop ?s [(Some line, ?w)] = ([Do (ConsoleLog SpecifyRange)], AwaitingInput)"
    by auto
  from a(2) tr
  have a': "session_loop ?s [(Some (lit '' variations 11 cat ''), ?w)]
      = ([Do (ConsoleLog SpecifyRange)], AwaitingInput)"
    by blast
  from variations_count_validated[OF m0, of ?s ?w] p0 c(2)
  have b: "handleCommand ?s ?w (lit ''variations 0 cat'') = ([Do (ConsoleLog SpecifyRange)], Inr False)"
    by auto
  from variations_count_validated[OF m3, of ?s ?w] p3 c(3,4)
  have "handleVariationsCommand ?s ?w (lit ''variations 3 cute cat'')
          = (case generateMultipleVariations (agent ?s) ?w (trim (lit ''cute cat'')) (Some (Num 3)) of
               (trace, Inl e) \<Rightarrow>
                 (Do (ConsoleLog (GeneratingVariations (Num 3) (trim (lit ''cute cat'')))) # trace, Inl e)
             | (trace, Inr paths) \<Rightarrow>
                 (Do (ConsoleLog (GeneratingVariations (Num 3) (trim (lit ''cute cat'')))) # trace,
                  Inr True))"
    by auto
  then have d: "\<exists>trace. fst (handleVariationsCommand ?s ?w (lit ''variations 3 cute cat''))
         = Do (ConsoleLog (GeneratingVariations (Num 3) (trim (lit ''cute cat'')))) # trace"
    by (cases "generateMultipleVariations (agent ?s) ?w (trim (lit ''cute cat'')) (Some (Num 3))")
       (auto split: sum.splits)
  from m11 m0 m3 p11 p0 p3 tr c a(1) a' b d show ?thesis by blast
qed

end
